theory Spec2Isabelle
  imports Main "HOL-Library.Sublist"
begin

section \<open>The icon script \<^verbatim>\<open>process_icons.py\<close>\<close>

text \<open>
  The script is one module-level sequence: two guarded \<^verbatim>\<open>os.makedirs\<close> calls, then a
  \<^verbatim>\<open>try\<close> block that opens one source image and, for each of three sizes, resizes it
  and saves the copy under two directories, printing one line per save; the
  \<^verbatim>\<open>except Exception\<close> clause prints one line.  Its whole effect is on the filesystem
  and on standard output, so the model threads a state holding both.  The library calls
  (\<^verbatim>\<open>os.path\<close>, \<^verbatim>\<open>os.makedirs\<close>, Pillow's \<^verbatim>\<open>Image.open\<close>, \<^verbatim>\<open>resize\<close>, \<^verbatim>\<open>save\<close>)
  are modelled as functions on that state; every exception they raise is a value.

  What the model takes for granted: the three \<^verbatim>\<open>import\<close> statements succeed and the
  installed Pillow has \<^verbatim>\<open>Image.Resampling.LANCZOS\<close>; \<^verbatim>\<open>print\<close> does not fail; no
  other process changes the files during the run; the only exceptions are those of the
  datatype \<open>error\<close> below, all of them subclasses of \<^verbatim>\<open>Exception\<close>.
\<close>

subsection \<open>Paths\<close>

text \<open>
  A path is the list of its components, the drive first.  All paths of the script are
  absolute Windows paths; \<open>render\<close> gives back the text with backslashes, which
  is what \<^verbatim>\<open>os.path.join\<close> builds and \<^verbatim>\<open>print\<close> shows.
\<close>

type_synonym path = "string list"

definition sep :: char where
  "sep = CHR 0x5C"

fun render :: "path \<Rightarrow> string" where
  "render [] = []"
| "render [c] = c"
| "render (c # cs) = c @ sep # render cs"

text \<open>\<^verbatim>\<open>os.path.join(d, name)\<close> for a relative one-component \<open>name\<close>.\<close>

definition join :: "path \<Rightarrow> string \<Rightarrow> path" where
  "join d name = d @ [name]"

subsection \<open>Images and file contents\<close>

datatype img_format = PNG | JPEG | GIF | BMP | ICO

datatype resampling = NEAREST | BOX | BILINEAR | HAMMING | BICUBIC | LANCZOS

text \<open>
  Pillow's colour modes \<^verbatim>\<open>1\<close>, \<^verbatim>\<open>L\<close>, \<^verbatim>\<open>LA\<close>, \<^verbatim>\<open>P\<close>, \<^verbatim>\<open>RGB\<close>, \<^verbatim>\<open>RGBA\<close>,
  \<^verbatim>\<open>I\<close>, \<^verbatim>\<open>F\<close>, \<^verbatim>\<open>CMYK\<close>, \<^verbatim>\<open>YCbCr\<close>, \<^verbatim>\<open>LAB\<close>, \<^verbatim>\<open>HSV\<close>.  Both
  \<^verbatim>\<open>resize\<close> and \<^verbatim>\<open>save\<close> depend on the mode.
\<close>

datatype mode =
    Mode_1 | Mode_L | Mode_LA | Mode_P | Mode_RGB | Mode_RGBA
  | Mode_I | Mode_F | Mode_CMYK | Mode_YCbCr | Mode_LAB | Mode_HSV

fun mode_name :: "mode \<Rightarrow> string" where
  "mode_name Mode_1 = ''1''"
| "mode_name Mode_L = ''L''"
| "mode_name Mode_LA = ''LA''"
| "mode_name Mode_P = ''P''"
| "mode_name Mode_RGB = ''RGB''"
| "mode_name Mode_RGBA = ''RGBA''"
| "mode_name Mode_I = ''I''"
| "mode_name Mode_F = ''F''"
| "mode_name Mode_CMYK = ''CMYK''"
| "mode_name Mode_YCbCr = ''YCbCr''"
| "mode_name Mode_LAB = ''LAB''"
| "mode_name Mode_HSV = ''HSV''"

text \<open>
  Pixel data is kept symbolic: \<open>Resampled f w h d\<close> stands for whatever Pillow's
  resampling with the filter \<open>f\<close> to \<open>w\<close> by \<open>h\<close> pixels computes from \<open>d\<close>
  (the floating-point kernel is not modelled).
\<close>

datatype pixel_data = Raw "nat list" | Resampled resampling nat nat pixel_data

text \<open>
  \<open>intact\<close> is false for an image whose header can be read but whose pixel data
  cannot be loaded (a truncated file): \<^verbatim>\<open>Image.open\<close> is lazy and accepts it, the first
  operation that loads the pixels raises.
\<close>

record image =
  width :: nat
  height :: nat
  mode :: mode
  pixels :: pixel_data
  intact :: bool

datatype content = Encoded img_format image | Garbage "nat list"

datatype node = Dir | File content

text \<open>
  \<open>denied p\<close>: the process may not write the file \<open>p\<close>, or create an entry
  in the directory \<open>p\<close>.  \<open>unreadable p\<close>: the process may not read \<open>p\<close>.
\<close>

record filesystem =
  nodes :: "path \<Rightarrow> node option"
  denied :: "path \<Rightarrow> bool"
  unreadable :: "path \<Rightarrow> bool"

record state =
  disk :: filesystem
  stdout :: "string list"

subsection \<open>Exceptions\<close>

datatype error =
    FileNotFoundError path
  | FileExistsError path
  | PermissionError path
  | UnidentifiedImageError path
  | OSError string
  | ValueError string

definition quoted :: "string \<Rightarrow> string" where
  "quoted s = CHR 0x27 # s @ [CHR 0x27]"

text \<open>\<^verbatim>\<open>str(e)\<close>, as the f-string of the \<^verbatim>\<open>except\<close> clause formats it.\<close>

fun str_error :: "error \<Rightarrow> string" where
  "str_error (FileNotFoundError p) = ''[Errno 2] No such file or directory: '' @ quoted (render p)"
| "str_error (FileExistsError p) = ''[WinError 183] Cannot create a file when that file already exists: '' @ quoted (render p)"
| "str_error (PermissionError p) = ''[Errno 13] Permission denied: '' @ quoted (render p)"
| "str_error (UnidentifiedImageError p) = ''cannot identify image file '' @ quoted (render p)"
| "str_error (OSError m) = m"
| "str_error (ValueError m) = m"

subsection \<open>\<^verbatim>\<open>os.path.exists\<close>, \<^verbatim>\<open>os.mkdir\<close>, \<^verbatim>\<open>os.makedirs\<close>\<close>

text \<open>\<^verbatim>\<open>os.path.exists\<close> is true for a file as well as for a directory.\<close>

definition exists :: "filesystem \<Rightarrow> path \<Rightarrow> bool" where
  "exists fs p = (nodes fs p \<noteq> None)"

definition isdir :: "filesystem \<Rightarrow> path \<Rightarrow> bool" where
  "isdir fs p = (nodes fs p = Some Dir)"

text \<open>
  An operation that can raise returns the filesystem it leaves behind and the exception,
  if any.  A drive (a path of one component) cannot be created.
\<close>

definition mkdir :: "filesystem \<Rightarrow> path \<Rightarrow> filesystem \<times> error option" where
  "mkdir fs p =
     (if exists fs p then (fs, Some (FileExistsError p))
      else if length p \<le> 1 \<or> \<not> isdir fs (butlast p) then (fs, Some (FileNotFoundError p))
      else if denied fs (butlast p) then (fs, Some (PermissionError p))
      else (fs\<lparr>nodes := (nodes fs)(p \<mapsto> Dir)\<rparr>, None))"

text \<open>
  \<^verbatim>\<open>os.makedirs(name)\<close> with \<^verbatim>\<open>exist_ok=False\<close>: when the parent is missing it is made
  first, recursively, a \<^verbatim>\<open>FileExistsError\<close> from that call being passed over; then
  \<^verbatim>\<open>mkdir(name)\<close>.
\<close>

function makedirs :: "filesystem \<Rightarrow> path \<Rightarrow> filesystem \<times> error option" where
  "makedirs fs p =
     (if 2 \<le> length p \<and> \<not> exists fs (butlast p) then
        (case makedirs fs (butlast p) of
           (fs1, None) \<Rightarrow> mkdir fs1 p
         | (fs1, Some (FileExistsError q)) \<Rightarrow> mkdir fs1 p
         | (fs1, Some e) \<Rightarrow> (fs1, Some e))
      else mkdir fs p)"
  by pat_completeness auto
termination
  by (relation "measure (\<lambda>(fs, p). length p)") auto

declare makedirs.simps [simp del]

subsection \<open>Pillow: \<^verbatim>\<open>Image.open\<close>, \<^verbatim>\<open>resize\<close>, \<^verbatim>\<open>save\<close>\<close>

definition open_image :: "filesystem \<Rightarrow> path \<Rightarrow> error + image" where
  "open_image fs p =
     (case nodes fs p of
        None \<Rightarrow> Inl (FileNotFoundError p)
      | Some Dir \<Rightarrow> Inl (PermissionError p)
      | Some (File c) \<Rightarrow>
          if unreadable fs p then Inl (PermissionError p)
          else (case c of
                  Encoded f img \<Rightarrow> Inr img
                | Garbage bs \<Rightarrow> Inl (UnidentifiedImageError p)))"

text \<open>
  \<^verbatim>\<open>img.resize(size, resample)\<close> loads the pixels; an image that already has the size
  is returned as a copy, not resampled; for an image of mode \<^verbatim>\<open>1\<close> or \<^verbatim>\<open>P\<close> the
  filter asked for is replaced by \<^verbatim>\<open>NEAREST\<close>; a size with a zero side is refused.  The
  mode is kept.
\<close>

definition resize :: "image \<Rightarrow> nat \<times> nat \<Rightarrow> resampling \<Rightarrow> error + image" where
  "resize img wh f =
     (if \<not> intact img then Inl (OSError ''image file is truncated'')
      else if (width img, height img) = wh then Inr img
      else if fst wh = 0 \<or> snd wh = 0 then Inl (ValueError ''height and width must be > 0'')
      else Inr \<lparr>width = fst wh, height = snd wh, mode = mode img,
                pixels = Resampled (if mode img = Mode_1 \<or> mode img = Mode_P then NEAREST else f)
                           (fst wh) (snd wh) (pixels img),
                intact = True\<rparr>)"

text \<open>
  \<^verbatim>\<open>save\<close> loads the pixels, takes the format from the extension of the file name
  (\<^verbatim>\<open>os.path.splitext(filename)[1].lower()\<close>, looked up in Pillow's table of registered
  extensions), opens the file with \<^verbatim>\<open>"w+b"\<close>, which creates it or empties it, and hands
  the image to the writer of the format.  A writer refuses the modes its format cannot
  hold (\<open>can_hold\<close>; only the row of PNG matters for this script); \<^verbatim>\<open>save\<close> then
  removes the file if it had created it, and otherwise leaves it empty.
\<close>

fun can_hold :: "img_format \<Rightarrow> mode \<Rightarrow> bool" where
  "can_hold PNG m = (m \<in> {Mode_1, Mode_L, Mode_LA, Mode_P, Mode_RGB, Mode_RGBA, Mode_I})"
| "can_hold ICO m = (m \<in> {Mode_1, Mode_L, Mode_LA, Mode_P, Mode_RGB, Mode_RGBA, Mode_I})"
| "can_hold JPEG m = (m \<in> {Mode_1, Mode_L, Mode_RGB, Mode_CMYK, Mode_YCbCr})"
| "can_hold BMP m = (m \<in> {Mode_1, Mode_L, Mode_P, Mode_RGB, Mode_RGBA})"
| "can_hold GIF m = True"

fun format_name :: "img_format \<Rightarrow> string" where
  "format_name PNG = ''PNG''"
| "format_name JPEG = ''JPEG''"
| "format_name GIF = ''GIF''"
| "format_name BMP = ''BMP''"
| "format_name ICO = ''ICO''"

definition lower_char :: "char \<Rightarrow> char" where
  "lower_char c = (let n = (of_char c :: nat) in if 65 \<le> n \<and> n \<le> 90 then char_of (n + 32) else c)"

definition splitext_ext :: "string \<Rightarrow> string" where
  "splitext_ext name =
     (let stem = dropWhile (\<lambda>c. c = CHR ''.'') name in
      if CHR ''.'' \<in> set stem
      then CHR ''.'' # rev (takeWhile (\<lambda>c. c \<noteq> CHR ''.'') (rev stem))
      else [])"

definition EXTENSION :: "string \<Rightarrow> img_format option" where
  "EXTENSION ext =
     (if ext = ''.png'' then Some PNG
      else if ext = ''.jpg'' \<or> ext = ''.jpeg'' then Some JPEG
      else if ext = ''.gif'' then Some GIF
      else if ext = ''.bmp'' then Some BMP
      else if ext = ''.ico'' then Some ICO
      else None)"

definition save :: "filesystem \<Rightarrow> path \<Rightarrow> image \<Rightarrow> filesystem \<times> error option" where
  "save fs p img =
     (if \<not> intact img then (fs, Some (OSError ''image file is truncated''))
      else
        let ext = map lower_char (splitext_ext (if p = [] then [] else last p)) in
        case EXTENSION ext of
          None \<Rightarrow> (fs, Some (ValueError (''unknown file extension: '' @ ext)))
        | Some fmt \<Rightarrow>
            if p = [] \<or> \<not> isdir fs (butlast p) then (fs, Some (FileNotFoundError p))
            else if isdir fs p then (fs, Some (PermissionError p))
            else if denied fs p \<or> (\<not> exists fs p \<and> denied fs (butlast p))
              then (fs, Some (PermissionError p))
            else if can_hold fmt (mode img)
              then (fs\<lparr>nodes := (nodes fs)(p \<mapsto> File (Encoded fmt img))\<rparr>, None)
            else ((if exists fs p then fs\<lparr>nodes := (nodes fs)(p \<mapsto> File (Garbage []))\<rparr> else fs),
                  Some (OSError (''cannot write mode '' @ mode_name (mode img) @ '' as '' @
                                 format_name fmt))))"

definition print :: "state \<Rightarrow> string \<Rightarrow> state" where
  "print s line = s\<lparr>stdout := stdout s @ [line]\<rparr>"

subsection \<open>The script\<close>

definition source_path :: path where
  "source_path = [''C:'', ''Users'', ''Administrator'', ''.gemini'', ''antigravity'', ''brain'',
     ''a95a8bed-cbac-44a9-a43c-18bee19e65ae'', ''web_scraper_spider_icon_1769348297278.png'']"

definition dest_dir :: path where
  "dest_dir = [''D:'', ''AI_project'', ''web-scraper'', ''src'', ''icons'']"

definition dist_dir :: path where
  "dist_dir = [''D:'', ''AI_project'', ''web-scraper'', ''dist'', ''icons'']"

definition sizes :: "nat list" where
  "sizes = [16, 48, 128]"

text \<open>Decimal text of a number, as an f-string formats an \<^verbatim>\<open>int\<close>.\<close>

function str_nat :: "nat \<Rightarrow> string" where
  "str_nat n = (if n < 10 then [char_of (48 + n)] else str_nat (n div 10) @ [char_of (48 + n mod 10)])"
  by pat_completeness auto
termination
  by (relation "measure (\<lambda>n. n)") auto

declare str_nat.simps [simp del]

text \<open>\<^verbatim>\<open>f"icon{size}.png"\<close>\<close>

definition icon_name :: "nat \<Rightarrow> string" where
  "icon_name sz = ''icon'' @ str_nat sz @ ''.png''"

definition saved_line :: "path \<Rightarrow> string" where
  "saved_line p = ''Saved '' @ render p"

definition error_line :: "error \<Rightarrow> string" where
  "error_line e = ''Error processing image: '' @ str_error e"

text \<open>
  The \<^verbatim>\<open>for size in sizes\<close> loop (the loop variable is \<open>sz\<close> here, \<open>size\<close>
  being a constant of HOL).  An exception leaves the loop at once; the state
  reached so far is kept (nothing is rolled back).
\<close>

fun resize_loop :: "image \<Rightarrow> nat list \<Rightarrow> state \<Rightarrow> state \<times> error option" where
  "resize_loop img [] s = (s, None)"
| "resize_loop img (sz # rest) s =
     (case resize img (sz, sz) LANCZOS of
        Inl e \<Rightarrow> (s, Some e)
      | Inr resized_img \<Rightarrow>
          let src_save_path = join dest_dir (icon_name sz) in
          (case save (disk s) src_save_path resized_img of
             (fs1, Some e) \<Rightarrow> (s\<lparr>disk := fs1\<rparr>, Some e)
           | (fs1, None) \<Rightarrow>
               let s1 = print (s\<lparr>disk := fs1\<rparr>) (saved_line src_save_path);
                   dist_save_path = join dist_dir (icon_name sz) in
               (case save (disk s1) dist_save_path resized_img of
                  (fs2, Some e) \<Rightarrow> (s1\<lparr>disk := fs2\<rparr>, Some e)
                | (fs2, None) \<Rightarrow>
                    let s2 = print (s1\<lparr>disk := fs2\<rparr>) (saved_line dist_save_path) in
                    resize_loop img rest s2)))"

text \<open>The body of the \<^verbatim>\<open>try\<close> block.\<close>

definition try_block :: "state \<Rightarrow> state \<times> error option" where
  "try_block s =
     (case open_image (disk s) source_path of
        Inl e \<Rightarrow> (s, Some e)
      | Inr img \<Rightarrow> resize_loop img sizes s)"

text \<open>\<^verbatim>\<open>if not os.path.exists(d): os.makedirs(d)\<close>\<close>

definition prepare_dir :: "filesystem \<Rightarrow> path \<Rightarrow> filesystem \<times> error option" where
  "prepare_dir fs d = (if \<not> exists fs d then makedirs fs d else (fs, None))"

text \<open>The two guarded \<^verbatim>\<open>os.makedirs\<close> statements, \<open>dest_dir\<close> first.\<close>

definition prepare_dirs :: "filesystem \<Rightarrow> filesystem \<times> error option" where
  "prepare_dirs fs =
     (case prepare_dir fs dest_dir of
        (fs1, Some e) \<Rightarrow> (fs1, Some e)
      | (fs1, None) \<Rightarrow> prepare_dir fs1 dist_dir)"

text \<open>
  How the process ends: \<open>Success\<close> when no exception was raised, \<open>Handled e\<close> when
  the \<^verbatim>\<open>except\<close> clause caught \<open>e\<close> and printed it (the process still ends normally),
  \<open>Crashed e\<close> when \<open>e\<close> was raised outside the \<^verbatim>\<open>try\<close> block and ended the process
  with a traceback.
\<close>

datatype outcome = Success | Handled error | Crashed error

definition main :: "state \<Rightarrow> state \<times> outcome" where
  "main s =
     (case prepare_dirs (disk s) of
        (fs2, Some e) \<Rightarrow> (s\<lparr>disk := fs2\<rparr>, Crashed e)
      | (fs2, None) \<Rightarrow>
          (case try_block (s\<lparr>disk := fs2\<rparr>) of
             (s3, None) \<Rightarrow> (s3, Success)
           | (s3, Some e) \<Rightarrow> (print s3 (error_line e), Handled e)))"

section \<open>Vocabulary of the properties\<close>

text \<open>
  These definitions are not part of the script; the theorems use them to say what the
  script leaves on disk.  \<open>resized img n\<close> is the image that
  \<^verbatim>\<open>img.resize((n, n), LANCZOS)\<close> returns when it returns one, \<open>targets\<close> the save
  paths in the order of the loop, \<open>planned\<close> the same paths with the image saved at
  each, \<open>written fs ws\<close> the filesystem after the writes \<open>ws\<close>, in order, each one
  replacing whatever the path held, and \<open>emptied fs p\<close> the filesystem with the file
  \<open>p\<close> left empty.  A filesystem is well formed when every entry below a drive lies
  in a directory.
\<close>

definition resized :: "image \<Rightarrow> nat \<Rightarrow> image" where
  "resized img n =
     (if width img = n \<and> height img = n then img
      else \<lparr>width = n, height = n, mode = mode img,
             pixels = Resampled (if mode img = Mode_1 \<or> mode img = Mode_P then NEAREST else LANCZOS)
                        n n (pixels img),
             intact = True\<rparr>)"

definition emptied :: "filesystem \<Rightarrow> path \<Rightarrow> filesystem" where
  "emptied fs p = fs\<lparr>nodes := (nodes fs)(p \<mapsto> File (Garbage []))\<rparr>"

definition targets :: "nat list \<Rightarrow> path list" where
  "targets ns = concat (map (\<lambda>n. [join dest_dir (icon_name n), join dist_dir (icon_name n)]) ns)"

definition planned :: "image \<Rightarrow> nat list \<Rightarrow> (path \<times> image) list" where
  "planned img ns =
     concat (map (\<lambda>n. [(join dest_dir (icon_name n), resized img n),
                        (join dist_dir (icon_name n), resized img n)]) ns)"

definition write_file :: "(path \<Rightarrow> node option) \<Rightarrow> path \<times> image \<Rightarrow> (path \<Rightarrow> node option)" where
  "write_file nd w = nd(fst w \<mapsto> File (Encoded PNG (snd w)))"

definition written :: "filesystem \<Rightarrow> (path \<times> image) list \<Rightarrow> filesystem" where
  "written fs ws = fs\<lparr>nodes := foldl write_file (nodes fs) ws\<rparr>"

definition wf_fs :: "filesystem \<Rightarrow> bool" where
  "wf_fs fs = (\<forall>p. exists fs p \<and> 2 \<le> length p \<longrightarrow> isdir fs (butlast p))"

text \<open>The names of the entries of a directory.\<close>

definition listdir :: "filesystem \<Rightarrow> path \<Rightarrow> string set" where
  "listdir fs d = {name. exists fs (join d name)}"

section \<open>Filesystems the theorems are tried on\<close>

text \<open>
  \<open>ready_state\<close>: both destination directories exist and are empty, the source is a
  512 by 300 JPEG, nothing is denied.
\<close>

definition ready_image :: image where
  "ready_image = \<lparr>width = 512, height = 300, mode = Mode_RGB, pixels = Raw [7, 7, 7], intact = True\<rparr>"

definition ready_fs :: filesystem where
  "ready_fs =
     \<lparr>nodes = (\<lambda>p. if p = source_path then Some (File (Encoded JPEG ready_image))
                   else if p \<noteq> [] \<and> (prefix p dest_dir \<or> prefix p dist_dir) then Some Dir
                   else None),
      denied = (\<lambda>p. False), unreadable = (\<lambda>p. False)\<rparr>"

definition ready_state :: state where
  "ready_state = \<lparr>disk = ready_fs, stdout = []\<rparr>"

text \<open>
  \<open>locked48_state\<close>: as \<open>ready_state\<close>, but the process may not write
  \<^verbatim>\<open>icon48.png\<close> under \<open>dist_dir\<close>.
\<close>

definition locked48_state :: state where
  "locked48_state =
     \<lparr>disk = ready_fs\<lparr>denied := (\<lambda>p. p = join dist_dir ''icon48.png'')\<rparr>, stdout = []\<rparr>"

text \<open>
  \<open>stale_state\<close>: as \<open>ready_state\<close>, but \<open>dist_dir\<close> already holds a file
  \<^verbatim>\<open>logo.png\<close>.
\<close>

definition stale_state :: state where
  "stale_state =
     \<lparr>disk = ready_fs\<lparr>nodes := (nodes ready_fs)(join dist_dir ''logo.png'' \<mapsto> File (Garbage [0]))\<rparr>,
      stdout = []\<rparr>"

text \<open>
  \<open>blocked_state\<close>: \<open>dest_dir\<close> exists, but where the parent of \<open>dist_dir\<close>
  should be there is a regular file named \<^verbatim>\<open>dist\<close>.
\<close>

definition blocked_state :: state where
  "blocked_state =
     \<lparr>disk = \<lparr>nodes = (\<lambda>p. if p = source_path then Some (File (Encoded PNG ready_image))
                           else if p = butlast dist_dir then Some (File (Garbage []))
                           else if p \<noteq> [] \<and> (prefix p dest_dir \<or> prefix p (butlast (butlast dist_dir)))
                             then Some Dir
                           else None),
              denied = (\<lambda>p. False), unreadable = (\<lambda>p. False)\<rparr>,
      stdout = []\<rparr>"

text \<open>
  \<open>denied_state\<close>: the drive and \<^verbatim>\<open>D:\AI_project\<close> exist, nothing may be created in
  \<^verbatim>\<open>D:\AI_project\<close>; the source is in place.  \<open>garbage_state\<close>: as
  \<open>ready_state\<close>, the source being a file of no bytes.  \<open>bare_state\<close>: an empty
  filesystem.  \<open>nosource_state\<close>: the drive \<^verbatim>\<open>D:\<close> alone.
\<close>

definition denied_state :: state where
  "denied_state =
     \<lparr>disk = \<lparr>nodes = (\<lambda>p. if p = source_path then Some (File (Encoded PNG ready_image))
                           else if p = take 1 dest_dir \<or> p = take 2 dest_dir then Some Dir
                           else None),
              denied = (\<lambda>p. p = take 2 dest_dir), unreadable = (\<lambda>p. False)\<rparr>,
      stdout = []\<rparr>"

definition garbage_state :: state where
  "garbage_state =
     \<lparr>disk = ready_fs\<lparr>nodes := (nodes ready_fs)(source_path \<mapsto> File (Garbage []))\<rparr>, stdout = []\<rparr>"

definition bare_state :: state where
  "bare_state =
     \<lparr>disk = \<lparr>nodes = (\<lambda>p. None), denied = (\<lambda>p. False), unreadable = (\<lambda>p. False)\<rparr>, stdout = []\<rparr>"

definition nosource_state :: state where
  "nosource_state =
     \<lparr>disk = \<lparr>nodes = (\<lambda>p. if p = [''D:''] then Some Dir else None),
              denied = (\<lambda>p. False), unreadable = (\<lambda>p. False)\<rparr>,
      stdout = []\<rparr>"

text \<open>
  \<open>fresh_state\<close>: the drive \<^verbatim>\<open>D:\<close> is empty, the source is a file of no bytes in its
  directory.  \<open>readonly_state\<close>: \<^verbatim>\<open>web-scraper\<close> exists on \<^verbatim>\<open>D:\<close> and nothing may be
  created in it; the source is in place.  \<open>occupied_fs\<close>: as \<open>ready_fs\<close>, but
  what lies at the path \<open>dest_dir\<close> is a regular file.
\<close>

definition fresh_state :: state where
  "fresh_state =
     \<lparr>disk = \<lparr>nodes = (\<lambda>p. if p = source_path then Some (File (Garbage []))
                           else if p = [''D:''] \<or> (p \<noteq> [] \<and> prefix p source_path) then Some Dir
                           else None),
              denied = (\<lambda>p. False), unreadable = (\<lambda>p. False)\<rparr>,
      stdout = []\<rparr>"

definition readonly_state :: state where
  "readonly_state =
     \<lparr>disk = \<lparr>nodes = (\<lambda>p. if p = source_path then Some (File (Encoded PNG ready_image))
                           else if p \<noteq> [] \<and> prefix p (take 3 dest_dir) then Some Dir
                           else None),
              denied = (\<lambda>p. p = take 3 dest_dir), unreadable = (\<lambda>p. False)\<rparr>,
      stdout = []\<rparr>"

definition occupied_fs :: filesystem where
  "occupied_fs = ready_fs\<lparr>nodes := (nodes ready_fs)(dest_dir \<mapsto> File (Garbage [1, 2]))\<rparr>"





section \<open>Library operations\<close>

subsection \<open>Saving and the loop\<close>

lemma icon_ext: "EXTENSION (map lower_char (splitext_ext (icon_name n))) = Some PNG"
  by (simp add: icon_name_def splitext_ext_def EXTENSION_def lower_char_def)

lemma save_icon:
  "intact img \<Longrightarrow>
   save fs (join d (icon_name n)) img =
     (if \<not> isdir fs d then (fs, Some (FileNotFoundError (join d (icon_name n))))
      else if isdir fs (join d (icon_name n)) then (fs, Some (PermissionError (join d (icon_name n))))
      else if denied fs (join d (icon_name n)) \<or> (\<not> exists fs (join d (icon_name n)) \<and> denied fs d)
        then (fs, Some (PermissionError (join d (icon_name n))))
      else if can_hold PNG (mode img) then (written fs [(join d (icon_name n), img)], None)
      else ((if exists fs (join d (icon_name n)) then emptied fs (join d (icon_name n)) else fs),
            Some (OSError (''cannot write mode '' @ mode_name (mode img) @ '' as PNG''))))"
  by (simp add: save_def join_def icon_ext written_def write_file_def emptied_def)

lemma save_icon_cases:
  assumes "save fs (join d (icon_name n)) img = (fs', r)" "intact img"
  obtains (fail) e where "r = Some e" "fs' = fs"
  | (spoiled) e where "r = Some e" "fs' = emptied fs (join d (icon_name n))"
      "\<not> can_hold PNG (mode img)" "exists fs (join d (icon_name n))"
      "\<not> isdir fs (join d (icon_name n))"
  | (ok) "r = None" "fs' = written fs [(join d (icon_name n), img)]" "can_hold PNG (mode img)"
  using assms by (auto simp: save_icon split: if_splits)

lemma written_Nil [simp]: "written fs [] = fs"
  by (simp add: written_def)

lemma written_append: "written (written fs ws) vs = written fs (ws @ vs)"
  by (simp add: written_def)

lemma resized_facts [simp]:
  "width (resized img n) = n" "height (resized img n) = n" "mode (resized img n) = mode img"
  by (simp_all add: resized_def)

lemma intact_resized: "intact img \<Longrightarrow> intact (resized img n)"
  by (simp add: resized_def)

lemma resize_Inr:
  assumes "resize img (n, n) LANCZOS = Inr ri"
  shows "ri = resized img n" "intact img" "intact ri"
  using assms by (auto simp: resize_def resized_def split: if_splits)

lemma resize_resized:
  "intact img \<Longrightarrow> 0 < n \<Longrightarrow> resize img (n, n) LANCZOS = Inr (resized img n)"
  by (simp add: resize_def resized_def)

lemma resize_broken: "\<not> intact img \<Longrightarrow> resize img (n, n) LANCZOS = Inl (OSError ''image file is truncated'')"
  by (simp add: resize_def)

text \<open>
  What the loop leaves: the first \<open>k\<close> writes, in order, with their lines.  The one
  other trace it can leave is that of a source in a mode PNG cannot hold: the very first
  save then fails in the writer, and the file it had opened, if it was there before, is
  left empty.
\<close>

lemma resize_loop_trace:
  "resize_loop img ns s = (s', r) \<Longrightarrow>
   \<exists>k\<le>2 * length ns.
     (disk s' = written (disk s) (take k (planned img ns)) \<or>
      k = 0 \<and> r \<noteq> None \<and> ns \<noteq> [] \<and> \<not> can_hold PNG (mode img) \<and>
      exists (disk s) (join dest_dir (icon_name (hd ns))) \<and>
      \<not> isdir (disk s) (join dest_dir (icon_name (hd ns))) \<and>
      disk s' = emptied (disk s) (join dest_dir (icon_name (hd ns)))) \<and>
     stdout s' = stdout s @ map saved_line (take k (targets ns)) \<and>
     (r = None \<longleftrightarrow> k = 2 * length ns) \<and>
     (0 < k \<longrightarrow> can_hold PNG (mode img))"
proof (induction ns arbitrary: s s' r)
  case Nil
  then show ?case by auto
next
  case (Cons n ns)
  let ?a = "join dest_dir (icon_name n)" and ?b = "join dist_dir (icon_name n)"
  show ?case
  proof (cases "resize img (n, n) LANCZOS")
    case (Inl e)
    with Cons.prems have "s' = s" "r \<noteq> None" by auto
    then show ?thesis by (intro exI[of _ 0]) simp
  next
    case (Inr ri)
    from resize_Inr[OF Inr] have ri: "ri = resized img n" and i: "intact (resized img n)"
      by simp_all
    note rs = Inr[unfolded ri]
    obtain fs1 r1 where s1: "save (disk s) ?a (resized img n) = (fs1, r1)"
      by (cases "save (disk s) ?a (resized img n)")
    from s1 i show ?thesis
    proof (cases rule: save_icon_cases)
      case (fail e)
      with Cons.prems rs s1 have "s' = s" "r \<noteq> None" by auto
      then show ?thesis by (intro exI[of _ 0]) simp
    next
      case (spoiled e)
      with Cons.prems rs s1 have "s' = s\<lparr>disk := emptied (disk s) ?a\<rparr>" "r \<noteq> None" by auto
      with spoiled show ?thesis by (intro exI[of _ 0]) simp
    next
      case ok
      then have fs1: "fs1 = written (disk s) [(?a, resized img n)]"
        and r1: "r1 = None" and h: "can_hold PNG (mode img)" by simp_all
      define s1 where "s1 = print (s\<lparr>disk := fs1\<rparr>) (saved_line ?a)"
      obtain fs2 r2 where s2: "save fs1 ?b (resized img n) = (fs2, r2)"
        by (cases "save fs1 ?b (resized img n)")
      from s2 i show ?thesis
      proof (cases rule: save_icon_cases)
        case (fail e)
        with Cons.prems rs \<open>save (disk s) ?a (resized img n) = (fs1, r1)\<close> r1 s2
        have "s' = s1" "r \<noteq> None"
          by (auto simp: s1_def print_def)
        then show ?thesis
          using h by (intro exI[of _ 1]) (simp add: s1_def print_def fs1 planned_def targets_def)
      next
        case (spoiled e)
        with h show ?thesis by simp
      next
        case ok
        then have fs2: "fs2 = written fs1 [(?b, resized img n)]" and r2: "r2 = None"
          by simp_all
        define s2' where "s2' = print (s1\<lparr>disk := fs2\<rparr>) (saved_line ?b)"
        from Cons.prems rs \<open>save (disk s) ?a (resized img n) = (fs1, r1)\<close> r1 s2 r2
        have "resize_loop img ns s2' = (s', r)"
          by (auto simp: s1_def s2'_def print_def)
        from Cons.IH[OF this] h obtain k where k: "k \<le> 2 * length ns"
          "disk s' = written (disk s2') (take k (planned img ns))"
          "stdout s' = stdout s2' @ map saved_line (take k (targets ns))"
          "(r = None) = (k = 2 * length ns)" by blast
        have d: "disk s2' = written (disk s) [(?a, resized img n), (?b, resized img n)]"
          by (simp add: s2'_def s1_def print_def fs2 fs1 written_append)
        have o: "stdout s2' = stdout s @ [saved_line ?a, saved_line ?b]"
          by (simp add: s2'_def s1_def print_def)
        show ?thesis
          using k h
          by (intro exI[of _ "Suc (Suc k)"]) (simp add: d o written_append planned_def targets_def)
      qed
    qed
  qed
qed

subsection \<open>Creating directories\<close>

lemma mkdir_cases:
  assumes "mkdir fs p = (fs', r)"
  obtains (fail) e where "r = Some e" "fs' = fs"
  | (ok) "r = None" "fs' = fs\<lparr>nodes := (nodes fs)(p \<mapsto> Dir)\<rparr>" "\<not> exists fs p"
         "2 \<le> length p" "isdir fs (butlast p)" "\<not> denied fs (butlast p)"
  using assms by (auto simp: mkdir_def split: if_splits)

lemma mkdir_nodes:
  "mkdir fs p = (fs', r) \<Longrightarrow>
   denied fs' = denied fs \<and> unreadable fs' = unreadable fs \<and>
   (\<forall>q. nodes fs' q = nodes fs q \<or> (nodes fs q = None \<and> nodes fs' q = Some Dir \<and> q = p \<and> q \<noteq> [] \<and> r = None))"
  by (erule mkdir_cases) (auto simp: exists_def)

lemma makedirs_nodes:
  "makedirs fs p = (fs', r) \<Longrightarrow>
   denied fs' = denied fs \<and> unreadable fs' = unreadable fs \<and>
   (\<forall>q. nodes fs' q = nodes fs q \<or>
        (nodes fs q = None \<and> nodes fs' q = Some Dir \<and> prefix q p \<and> q \<noteq> []))"
proof (induction fs p arbitrary: fs' r rule: makedirs.induct)
  case (1 fs p)
  show ?case
  proof (cases "2 \<le> length p \<and> \<not> exists fs (butlast p)")
    case False
    with "1.prems" have "mkdir fs p = (fs', r)"
      by (simp add: makedirs.simps)
    from mkdir_nodes[OF this] show ?thesis
      by (auto elim: mkdir_cases)
  next
    case True
    obtain fs1 r1 where m: "makedirs fs (butlast p) = (fs1, r1)"
      by (cases "makedirs fs (butlast p)")
    from "1.IH"[OF True m]
    have ih: "denied fs1 = denied fs" "unreadable fs1 = unreadable fs"
      "\<And>q. nodes fs1 q = nodes fs q \<or>
        (nodes fs q = None \<and> nodes fs1 q = Some Dir \<and> prefix q (butlast p) \<and> q \<noteq> [])"
      by auto
    have pb: "\<And>q. prefix q (butlast p) \<Longrightarrow> prefix q p"
      by (metis prefix_order.trans prefixeq_butlast)
    consider (stop) "fs' = fs1" | (go) "mkdir fs1 p = (fs', r)"
      using "1.prems" True m
      by (auto simp: makedirs.simps[of fs p] split: option.splits error.splits)
    then show ?thesis
    proof cases
      case stop
      with ih pb show ?thesis by metis
    next
      case go
      from mkdir_nodes[OF go] have mk: "denied fs' = denied fs1" "unreadable fs' = unreadable fs1"
        "\<And>q. nodes fs' q = nodes fs1 q \<or> (nodes fs1 q = None \<and> nodes fs' q = Some Dir \<and> q = p \<and> q \<noteq> [] \<and> r = None)"
        by auto
      have pne: "p \<noteq> []" using True by auto
      show ?thesis
      proof (intro conjI allI)
        show "denied fs' = denied fs" using mk ih by simp
        show "unreadable fs' = unreadable fs" using mk ih by simp
        fix q
        show "nodes fs' q = nodes fs q \<or>
           (nodes fs q = None \<and> nodes fs' q = Some Dir \<and> prefix q p \<and> q \<noteq> [])"
          using mk(3)[of q] ih(3)[of q] pb[of q] pne
          by (metis option.distinct(1) prefix_order.refl)
      qed
    qed
  qed
qed

lemma makedirs_isdir: "makedirs fs p = (fs', None) \<Longrightarrow> isdir fs' p"
proof -
  assume a: "makedirs fs p = (fs', None)"
  then obtain fs1 where "mkdir fs1 p = (fs', None)"
    by (auto simp: makedirs.simps[of fs p] split: if_splits prod.splits option.splits error.splits)
  then show ?thesis
    by (auto elim!: mkdir_cases simp: isdir_def)
qed

lemma wf_fs_prefix_isdir:
  "wf_fs fs \<Longrightarrow> exists fs p \<Longrightarrow> strict_prefix q p \<Longrightarrow> q \<noteq> [] \<Longrightarrow> isdir fs q"
proof (induction p rule: rev_induct)
  case Nil
  then show ?case by simp
next
  case (snoc x xs)
  from snoc.prems(3) have pq: "prefix q xs" by (auto simp: strict_prefix_def)
  with snoc.prems(4) have "xs \<noteq> []" by auto
  then have "2 \<le> length (xs @ [x])" by (cases xs) auto
  with snoc.prems(1,2) have d: "isdir fs xs"
    unfolding wf_fs_def by (metis butlast_snoc)
  show ?case
  proof (cases "q = xs")
    case True
    with d show ?thesis by simp
  next
    case False
    with pq have "strict_prefix q xs" by (simp add: strict_prefix_def)
    moreover from d have "exists fs xs" by (simp add: exists_def isdir_def)
    ultimately show ?thesis using snoc.IH snoc.prems(1,4) by blast
  qed
qed

lemma wf_fs_mkdir: "wf_fs fs \<Longrightarrow> mkdir fs p = (fs', r) \<Longrightarrow> wf_fs fs'"
proof (cases r)
  case (Some e)
  assume "wf_fs fs" "mkdir fs p = (fs', r)"
  with Some show ?thesis by (auto elim: mkdir_cases)
next
  case None
  assume wf: "wf_fs fs" and mk: "mkdir fs p = (fs', r)"
  from mk None have f: "fs' = fs\<lparr>nodes := (nodes fs)(p \<mapsto> Dir)\<rparr>"
    and ne: "\<not> exists fs p" and par: "isdir fs (butlast p)" and len: "2 \<le> length p"
    by (auto elim: mkdir_cases)
  show "wf_fs fs'"
    unfolding wf_fs_def
  proof (intro allI impI)
    fix q assume q: "exists fs' q \<and> 2 \<le> length q"
    show "isdir fs' (butlast q)"
    proof (cases "q = p")
      case True
      with par ne f show ?thesis by (auto simp: isdir_def exists_def)
    next
      case False
      with q f have "exists fs q" by (simp add: exists_def)
      with wf q have "isdir fs (butlast q)" by (auto simp: wf_fs_def)
      with f ne show ?thesis by (auto simp: isdir_def exists_def)
    qed
  qed
qed

lemma wf_fs_makedirs: "wf_fs fs \<Longrightarrow> makedirs fs p = (fs', r) \<Longrightarrow> wf_fs fs'"
proof (induction fs p arbitrary: fs' r rule: makedirs.induct)
  case (1 fs p)
  show ?case
  proof (cases "2 \<le> length p \<and> \<not> exists fs (butlast p)")
    case False
    with "1.prems" show ?thesis
      by (auto simp: makedirs.simps[of fs p] intro: wf_fs_mkdir)
  next
    case True
    obtain fs1 r1 where m: "makedirs fs (butlast p) = (fs1, r1)"
      by (cases "makedirs fs (butlast p)")
    from "1.IH"[OF True "1.prems"(1) m] have w1: "wf_fs fs1" .
    consider (stop) "fs' = fs1" | (go) "mkdir fs1 p = (fs', r)"
      using "1.prems" True m
      by (auto simp: makedirs.simps[of fs p] split: option.splits error.splits)
    then show ?thesis
      using w1 by cases (auto intro: wf_fs_mkdir)
  qed
qed

lemma makedirs_succeeds:
  "wf_fs fs \<Longrightarrow> \<not> exists fs p \<Longrightarrow> 2 \<le> length p \<Longrightarrow> isdir fs [hd p] \<Longrightarrow>
   (\<forall>q. strict_prefix q p \<and> q \<noteq> [] \<longrightarrow> \<not> denied fs q \<and> (exists fs q \<longrightarrow> isdir fs q)) \<Longrightarrow>
   snd (makedirs fs p) = None"
proof (induction fs p rule: makedirs.induct)
  case (1 fs p)
  from "1.prems"(3) obtain xs x where p: "p = xs @ [x]"
    by (cases p rule: rev_cases) auto
  with "1.prems"(3) have xs: "xs \<noteq> []" by auto
  have bl: "butlast p = xs" by (simp add: p)
  have sp: "strict_prefix xs p" by (simp add: p strict_prefix_def)
  have hd: "hd xs = hd p" using xs by (simp add: p)
  show ?case
  proof (cases "exists fs xs")
    case True
    with "1.prems"(5) sp xs have "isdir fs xs" "\<not> denied fs xs" by blast+
    with True "1.prems"(2,3) show ?thesis
      by (simp add: makedirs.simps[of fs p] mkdir_def bl)
  next
    case False
    have l2: "2 \<le> length xs"
    proof (rule ccontr)
      assume "\<not> 2 \<le> length xs"
      then have "length xs \<le> 1" by simp
      with xs obtain y where "xs = [y]" by (cases xs) auto
      with hd have "xs = [hd p]" by simp
      with False "1.prems"(4) show False by (simp add: exists_def isdir_def)
    qed
    have pre: "\<forall>q. strict_prefix q xs \<and> q \<noteq> [] \<longrightarrow> \<not> denied fs q \<and> (exists fs q \<longrightarrow> isdir fs q)"
    proof (intro allI impI)
      fix q assume "strict_prefix q xs \<and> q \<noteq> []"
      then have "strict_prefix q p \<and> q \<noteq> []" using sp by (auto intro: prefix_order.less_trans)
      with "1.prems"(5) show "\<not> denied fs q \<and> (exists fs q \<longrightarrow> isdir fs q)" by blast
    qed
    have c: "2 \<le> length p \<and> \<not> exists fs (butlast p)"
      using "1.prems"(3) False bl by simp
    obtain fs1 r1 where m: "makedirs fs xs = (fs1, r1)"
      by (cases "makedirs fs xs")
    have "snd (makedirs fs (butlast p)) = None"
    proof (rule "1.IH"[OF c "1.prems"(1)])
      show "\<not> exists fs (butlast p)" using c by simp
      show "2 \<le> length (butlast p)" using l2 bl by simp
      show "isdir fs [hd (butlast p)]" using "1.prems"(4) hd bl by simp
      show "\<forall>q. strict_prefix q (butlast p) \<and> q \<noteq> [] \<longrightarrow> \<not> denied fs q \<and> (exists fs q \<longrightarrow> isdir fs q)"
        using pre bl by simp
    qed
    with m bl have r1: "r1 = None" by simp
    from makedirs_isdir m r1 have d1: "isdir fs1 xs" by blast
    from makedirs_nodes[OF m] have fr: "denied fs1 = denied fs"
      "\<And>q. nodes fs1 q = nodes fs q \<or> (nodes fs q = None \<and> nodes fs1 q = Some Dir \<and> prefix q xs \<and> q \<noteq> [])"
      by auto
    have "\<not> prefix p xs" by (simp add: p)
    with fr(2)[of p] "1.prems"(2) have "\<not> exists fs1 p" by (auto simp: exists_def)
    moreover have "\<not> denied fs1 xs" using fr(1) "1.prems"(5) sp xs by simp
    ultimately have "snd (mkdir fs1 p) = None"
      using d1 "1.prems"(3) by (simp add: mkdir_def bl)
    with m r1 c bl show ?thesis
      by (simp add: makedirs.simps[of fs p])
  qed
qed

subsection \<open>Facts about the paths\<close>

lemma icon_name_16: "icon_name 16 = ''icon16.png''" by code_simp
lemma icon_name_48: "icon_name 48 = ''icon48.png''" by code_simp
lemma icon_name_128: "icon_name 128 = ''icon128.png''" by code_simp

lemma dirs_differ: "dest_dir \<noteq> dist_dir" "dist_dir \<noteq> dest_dir"
  by (simp_all add: dest_dir_def dist_dir_def)

lemma length_dirs: "length dest_dir = 5" "length dist_dir = 5" "length source_path = 8"
  by (simp_all add: dest_dir_def dist_dir_def source_path_def)

lemma hd_paths: "hd dest_dir = ''D:''" "hd dist_dir = ''D:''" "hd source_path = ''C:''"
  by (simp_all add: dest_dir_def dist_dir_def source_path_def)

lemma length_join: "length (join d x) = Suc (length d)"
  by (simp add: join_def)

lemma join_eq_iff: "join d x = join e y \<longleftrightarrow> d = e \<and> x = y"
  by (simp add: join_def)

lemma join_ne_dirs: "join dest_dir x \<noteq> dest_dir" "join dest_dir x \<noteq> dist_dir"
  "join dist_dir x \<noteq> dest_dir" "join dist_dir x \<noteq> dist_dir"
  using length_dirs by (metis length_join n_not_Suc_n)+

lemma join_not_prefix_dirs:
  "\<not> prefix (join dest_dir x) dest_dir" "\<not> prefix (join dest_dir x) dist_dir"
  "\<not> prefix (join dist_dir x) dest_dir" "\<not> prefix (join dist_dir x) dist_dir"
proof -
  have "\<And>d e. length d = 5 \<Longrightarrow> length e = 5 \<Longrightarrow> \<not> prefix (join d x) e"
  proof
    fix d e :: path assume l: "length d = 5" "length e = 5" and pr: "prefix (join d x) e"
    from pr have "length (join d x) \<le> length e" by (rule prefix_length_le)
    with l show False by (simp add: length_join)
  qed
  then show "\<not> prefix (join dest_dir x) dest_dir" "\<not> prefix (join dest_dir x) dist_dir"
    "\<not> prefix (join dist_dir x) dest_dir" "\<not> prefix (join dist_dir x) dist_dir"
    using length_dirs by blast+
qed

lemma source_ne_join: "source_path \<noteq> join dest_dir x" "source_path \<noteq> join dist_dir x"
proof -
  have "hd (join dest_dir x) = ''D:''" "hd (join dist_dir x) = ''D:''"
    by (simp_all add: join_def dest_dir_def dist_dir_def)
  then show "source_path \<noteq> join dest_dir x" "source_path \<noteq> join dist_dir x"
    using hd_paths(3) by auto
qed

lemma source_not_prefix: "\<not> prefix source_path dest_dir" "\<not> prefix source_path dist_dir"
proof -
  have "\<And>e. length e = 5 \<Longrightarrow> \<not> prefix source_path e"
  proof
    fix e :: path assume l: "length e = 5" and pr: "prefix source_path e"
    from pr have "length source_path \<le> length e" by (rule prefix_length_le)
    with l show False by (simp add: length_dirs)
  qed
  then show "\<not> prefix source_path dest_dir" "\<not> prefix source_path dist_dir"
    using length_dirs by blast+
qed

lemma targets_sizes:
  "targets sizes = [join dest_dir ''icon16.png'', join dist_dir ''icon16.png'',
                    join dest_dir ''icon48.png'', join dist_dir ''icon48.png'',
                    join dest_dir ''icon128.png'', join dist_dir ''icon128.png'']"
  by (simp add: targets_def sizes_def icon_name_16 icon_name_48 icon_name_128)

lemma planned_sizes:
  "planned img sizes =
     [(join dest_dir ''icon16.png'', resized img 16), (join dist_dir ''icon16.png'', resized img 16),
      (join dest_dir ''icon48.png'', resized img 48), (join dist_dir ''icon48.png'', resized img 48),
      (join dest_dir ''icon128.png'', resized img 128), (join dist_dir ''icon128.png'', resized img 128)]"
  by (simp add: planned_def sizes_def icon_name_16 icon_name_48 icon_name_128)

lemma map_fst_planned: "map fst (planned img ns) = targets ns"
  by (induction ns) (simp_all add: planned_def targets_def)

lemma length_targets: "length (targets ns) = 2 * length ns"
  by (induction ns) (simp_all add: targets_def)

lemma distinct_targets_sizes: "distinct (targets sizes)"
  by (simp add: targets_sizes join_eq_iff dirs_differ)

lemma set_targets: "set (targets ns) = (\<Union>n\<in>set ns. {join dest_dir (icon_name n), join dist_dir (icon_name n)})"
  by (induction ns) (auto simp: targets_def)

lemma dirs_not_targets: "dest_dir \<notin> set (targets ns)" "dist_dir \<notin> set (targets ns)"
  using join_ne_dirs by (auto simp: set_targets) metis+

lemma source_not_target: "source_path \<notin> set (targets ns)"
  using source_ne_join by (auto simp: set_targets)

subsection \<open>Facts about written\<close>

lemma denied_written [simp]: "denied (written fs ws) = denied fs"
  and unreadable_written [simp]: "unreadable (written fs ws) = unreadable fs"
  by (simp_all add: written_def)

lemma nodes_written_snoc:
  "nodes (written fs (ws @ [w])) = (nodes (written fs ws))(fst w \<mapsto> File (Encoded PNG (snd w)))"
  by (simp add: written_def write_file_def)

lemma nodes_written_other: "p \<notin> fst ` set ws \<Longrightarrow> nodes (written fs ws) p = nodes fs p"
  by (induction ws rule: rev_induct) (simp_all add: nodes_written_snoc)

lemma nodes_written_in:
  "p \<in> fst ` set ws \<Longrightarrow> \<exists>img. (p, img) \<in> set ws \<and> nodes (written fs ws) p = Some (File (Encoded PNG img))"
proof (induction ws rule: rev_induct)
  case Nil
  then show ?case by simp
next
  case (snoc w ws)
  show ?case
  proof (cases "p = fst w")
    case True
    then show ?thesis
      by (intro exI[of _ "snd w"]) (simp add: nodes_written_snoc)
  next
    case False
    with snoc.prems have "p \<in> fst ` set ws" by auto
    from snoc.IH[OF this] False show ?thesis
      by (auto simp: nodes_written_snoc)
  qed
qed


lemma written_idem:
  "nodes fs p = Some (File (Encoded PNG img)) \<Longrightarrow> written fs [(p, img)] = fs"
  by (simp add: written_def write_file_def fun_upd_idem)

lemma isdir_written: "isdir (written fs ws) p \<longleftrightarrow> isdir fs p \<and> p \<notin> fst ` set ws"
proof (cases "p \<in> fst ` set ws")
  case True
  from nodes_written_in[OF this, of fs] show ?thesis
    using True by (auto simp: isdir_def)
next
  case False
  from nodes_written_other[OF this, of fs] show ?thesis
    using False by (simp add: isdir_def)
qed

lemma exists_written: "exists (written fs ws) p \<longleftrightarrow> exists fs p \<or> p \<in> fst ` set ws"
proof (cases "p \<in> fst ` set ws")
  case True
  from nodes_written_in[OF this, of fs] show ?thesis
    using True by (auto simp: exists_def)
next
  case False
  from nodes_written_other[OF this, of fs] show ?thesis
    using False by (simp add: exists_def)
qed

lemma set_take_planned: "fst ` set (take k (planned img ns)) \<subseteq> set (targets ns)"
proof -
  have "fst ` set (take k (planned img ns)) \<subseteq> fst ` set (planned img ns)"
    by (meson image_mono set_take_subset)
  also have "\<dots> = set (targets ns)"
    using map_fst_planned[of img ns] by (metis set_map)
  finally show ?thesis .
qed

subsection \<open>Directory preparation\<close>

lemma prepare_dir_nodes:
  "prepare_dir fs d = (fs', r) \<Longrightarrow>
   denied fs' = denied fs \<and> unreadable fs' = unreadable fs \<and>
   (\<forall>q. nodes fs' q = nodes fs q \<or>
        (nodes fs q = None \<and> nodes fs' q = Some Dir \<and> prefix q d \<and> q \<noteq> []))"
  by (cases "exists fs d") (auto simp: prepare_dir_def dest: makedirs_nodes)

lemma prepare_dir_exists: "prepare_dir fs d = (fs', None) \<Longrightarrow> exists fs' d"
  by (cases "exists fs d") (auto simp: prepare_dir_def exists_def isdir_def dest: makedirs_isdir)

lemma prepare_dir_isdir:
  "prepare_dir fs d = (fs', None) \<Longrightarrow> \<not> exists fs d \<or> isdir fs d \<Longrightarrow> isdir fs' d"
  by (cases "exists fs d") (auto simp: prepare_dir_def dest: makedirs_isdir)

lemma prepare_dir_noop: "exists fs d \<Longrightarrow> prepare_dir fs d = (fs, None)"
  by (simp add: prepare_dir_def)

lemma wf_fs_prepare_dir: "wf_fs fs \<Longrightarrow> prepare_dir fs d = (fs', r) \<Longrightarrow> wf_fs fs'"
proof (cases "exists fs d")
  case True
  assume "wf_fs fs" "prepare_dir fs d = (fs', r)"
  with True show ?thesis by (simp add: prepare_dir_def)
next
  case False
  assume w: "wf_fs fs" and "prepare_dir fs d = (fs', r)"
  with False have "makedirs fs d = (fs', r)" by (simp add: prepare_dir_def)
  with w show ?thesis by (rule wf_fs_makedirs)
qed

lemma prepare_dirs_cases:
  assumes "prepare_dirs fs = (fs', r)"
  obtains (first) e where "prepare_dir fs dest_dir = (fs', Some e)" "r = Some e"
  | (second) fs1 where "prepare_dir fs dest_dir = (fs1, None)" "prepare_dir fs1 dist_dir = (fs', r)"
  using assms by (auto simp: prepare_dirs_def split: prod.splits option.splits)

lemma prepare_dirs_nodes:
  assumes "prepare_dirs fs = (fs', r)"
  shows "denied fs' = denied fs" "unreadable fs' = unreadable fs"
    "nodes fs' q = nodes fs q \<or>
       (nodes fs q = None \<and> nodes fs' q = Some Dir \<and> (prefix q dest_dir \<or> prefix q dist_dir) \<and> q \<noteq> [])"
proof -
  from assms have "denied fs' = denied fs \<and> unreadable fs' = unreadable fs \<and>
    (nodes fs' q = nodes fs q \<or>
       (nodes fs q = None \<and> nodes fs' q = Some Dir \<and> (prefix q dest_dir \<or> prefix q dist_dir) \<and> q \<noteq> []))"
  proof (cases rule: prepare_dirs_cases)
    case (first e)
    from prepare_dir_nodes[OF first(1)] show ?thesis by auto
  next
    case (second fs1)
    from prepare_dir_nodes[OF second(1)] prepare_dir_nodes[OF second(2)]
    have a: "denied fs1 = denied fs" "unreadable fs1 = unreadable fs"
      "nodes fs1 q = nodes fs q \<or> (nodes fs q = None \<and> nodes fs1 q = Some Dir \<and> prefix q dest_dir \<and> q \<noteq> [])"
      and b: "denied fs' = denied fs1" "unreadable fs' = unreadable fs1"
      "nodes fs' q = nodes fs1 q \<or> (nodes fs1 q = None \<and> nodes fs' q = Some Dir \<and> prefix q dist_dir \<and> q \<noteq> [])"
      by auto
    show ?thesis using a b by auto
  qed
  then show "denied fs' = denied fs" "unreadable fs' = unreadable fs"
    "nodes fs' q = nodes fs q \<or>
       (nodes fs q = None \<and> nodes fs' q = Some Dir \<and> (prefix q dest_dir \<or> prefix q dist_dir) \<and> q \<noteq> [])"
    by auto
qed

lemma prepare_dirs_exist:
  assumes "prepare_dirs fs = (fs', None)"
  shows "exists fs' dest_dir" "exists fs' dist_dir"
proof -
  from assms obtain fs1 where 1: "prepare_dir fs dest_dir = (fs1, None)"
    and 2: "prepare_dir fs1 dist_dir = (fs', None)"
    by (auto elim: prepare_dirs_cases)
  from 2 show "exists fs' dist_dir" by (rule prepare_dir_exists)
  from 1 have "exists fs1 dest_dir" by (rule prepare_dir_exists)
  moreover from prepare_dir_nodes[OF 2]
  have "nodes fs' dest_dir = nodes fs1 dest_dir \<or> nodes fs' dest_dir = Some Dir" by blast
  ultimately show "exists fs' dest_dir"
    by (auto simp: exists_def)
qed

lemma prepare_dirs_noop:
  "exists fs dest_dir \<Longrightarrow> exists fs dist_dir \<Longrightarrow> prepare_dirs fs = (fs, None)"
  by (simp add: prepare_dirs_def prepare_dir_noop)

lemma wf_fs_prepare_dirs:
  assumes "wf_fs fs" "prepare_dirs fs = (fs', r)"
  shows "wf_fs fs'"
  using assms(2)
proof (cases rule: prepare_dirs_cases)
  case (first e)
  with assms(1) show ?thesis by (blast intro: wf_fs_prepare_dir[of fs])
next
  case (second fs1)
  from assms(1) second(1) have "wf_fs fs1" by (rule wf_fs_prepare_dir)
  from this second(2) show ?thesis by (rule wf_fs_prepare_dir)
qed

lemma prepare_dirs_file_kept:
  "prepare_dirs fs = (fs', r) \<Longrightarrow> nodes fs' p = Some (File c) \<longleftrightarrow> nodes fs p = Some (File c)"
  using prepare_dirs_nodes(3)[of fs fs' r p] by auto

lemma open_image_cong:
  "nodes fs' p = nodes fs p \<Longrightarrow> unreadable fs' p = unreadable fs p \<Longrightarrow>
   open_image fs' p = open_image fs p"
  by (simp add: open_image_def split: option.splits node.splits)

lemma prepare_dirs_source:
  assumes "prepare_dirs fs = (fs', r)"
  shows "open_image fs' source_path = open_image fs source_path"
proof -
  have "nodes fs' source_path = nodes fs source_path"
    using prepare_dirs_nodes(3)[OF assms, of source_path] source_not_prefix by blast
  moreover have "unreadable fs' = unreadable fs"
    using assms by (rule prepare_dirs_nodes(2))
  then have "unreadable fs' source_path = unreadable fs source_path" by simp
  ultimately show ?thesis by (rule open_image_cong)
qed

subsection \<open>The script as a whole\<close>

lemma main_cases:
  obtains (crashed) fs2 e where "prepare_dirs (disk s) = (fs2, Some e)"
      "main s = (s\<lparr>disk := fs2\<rparr>, Crashed e)"
  | (handled) fs2 s3 e where "prepare_dirs (disk s) = (fs2, None)"
      "try_block (s\<lparr>disk := fs2\<rparr>) = (s3, Some e)" "main s = (print s3 (error_line e), Handled e)"
  | (success) fs2 s3 where "prepare_dirs (disk s) = (fs2, None)"
      "try_block (s\<lparr>disk := fs2\<rparr>) = (s3, None)" "main s = (s3, Success)"
proof -
  obtain fs2 r where p: "prepare_dirs (disk s) = (fs2, r)" by (cases "prepare_dirs (disk s)")
  show ?thesis
  proof (cases r)
    case (Some e)
    with p have "main s = (s\<lparr>disk := fs2\<rparr>, Crashed e)" by (simp add: main_def)
    with p Some crashed show ?thesis by blast
  next
    case None
    obtain s3 r3 where t: "try_block (s\<lparr>disk := fs2\<rparr>) = (s3, r3)"
      by (cases "try_block (s\<lparr>disk := fs2\<rparr>)")
    show ?thesis
    proof (cases r3)
      case None
      with p \<open>r = None\<close> t have "main s = (s3, Success)" by (simp add: main_def)
      with p \<open>r = None\<close> t None success show ?thesis by blast
    next
      case (Some e)
      with p \<open>r = None\<close> t have "main s = (print s3 (error_line e), Handled e)" by (simp add: main_def)
      with p \<open>r = None\<close> t Some handled show ?thesis by blast
    qed
  qed
qed

lemma main_SuccessE:
  assumes "main s = (s', Success)"
  obtains fs2 where "prepare_dirs (disk s) = (fs2, None)"
    "try_block (s\<lparr>disk := fs2\<rparr>) = (s', None)"
  using assms by (cases s rule: main_cases) simp_all

lemma main_HandledE:
  assumes "main s = (s', Handled e)"
  obtains fs2 s3 where "prepare_dirs (disk s) = (fs2, None)"
    "try_block (s\<lparr>disk := fs2\<rparr>) = (s3, Some e)" "s' = print s3 (error_line e)"
  using assms by (cases s rule: main_cases) simp_all

lemma main_CrashedE:
  assumes "main s = (s', Crashed e)"
  obtains fs2 where "prepare_dirs (disk s) = (fs2, Some e)" "s' = s\<lparr>disk := fs2\<rparr>"
  using assms by (cases s rule: main_cases) simp_all

lemma try_block_NoneE:
  assumes "try_block s = (s', None)"
  obtains img where "open_image (disk s) source_path = Inr img"
    "resize_loop img sizes s = (s', None)"
  using assms by (cases "open_image (disk s) source_path") (simp_all add: try_block_def)


lemma main_crash:
  "prepare_dirs (disk s) = (fs2, Some e) \<Longrightarrow> main s = (s\<lparr>disk := fs2\<rparr>, Crashed e)"
  by (simp add: main_def)

lemma resize_loop_traceE:
  assumes "resize_loop img ns s = (s', r)"
  obtains (writes) k where "k \<le> 2 * length ns"
      "disk s' = written (disk s) (take k (planned img ns))"
      "stdout s' = stdout s @ map saved_line (take k (targets ns))"
      "r = None \<longleftrightarrow> k = 2 * length ns"
      "0 < k \<longrightarrow> can_hold PNG (mode img)"
  | (spoiled) "r \<noteq> None" "ns \<noteq> []" "\<not> can_hold PNG (mode img)"
      "exists (disk s) (join dest_dir (icon_name (hd ns)))"
      "\<not> isdir (disk s) (join dest_dir (icon_name (hd ns)))"
      "disk s' = emptied (disk s) (join dest_dir (icon_name (hd ns)))"
      "stdout s' = stdout s"
proof -
  from resize_loop_trace[OF assms] obtain k where kk: "k \<le> 2 * length ns \<and>
     (disk s' = written (disk s) (take k (planned img ns)) \<or>
      k = 0 \<and> r \<noteq> None \<and> ns \<noteq> [] \<and> \<not> can_hold PNG (mode img) \<and>
      exists (disk s) (join dest_dir (icon_name (hd ns))) \<and>
      \<not> isdir (disk s) (join dest_dir (icon_name (hd ns))) \<and>
      disk s' = emptied (disk s) (join dest_dir (icon_name (hd ns)))) \<and>
     stdout s' = stdout s @ map saved_line (take k (targets ns)) \<and>
     (r = None \<longleftrightarrow> k = 2 * length ns) \<and>
     (0 < k \<longrightarrow> can_hold PNG (mode img))" ..
  from kk have k: "k \<le> 2 * length ns" by (rule conjunct1)
  from kk have d: "disk s' = written (disk s) (take k (planned img ns)) \<or>
      k = 0 \<and> r \<noteq> None \<and> ns \<noteq> [] \<and> \<not> can_hold PNG (mode img) \<and>
      exists (disk s) (join dest_dir (icon_name (hd ns))) \<and>
      \<not> isdir (disk s) (join dest_dir (icon_name (hd ns))) \<and>
      disk s' = emptied (disk s) (join dest_dir (icon_name (hd ns)))"
    by (elim conjE)
  from kk have o: "stdout s' = stdout s @ map saved_line (take k (targets ns))"
    by (elim conjE)
  from kk have r: "r = None \<longleftrightarrow> k = 2 * length ns" by (elim conjE)
  from kk have h: "0 < k \<longrightarrow> can_hold PNG (mode img)" by (elim conjE)
  from d show ?thesis
  proof
    assume dd: "disk s' = written (disk s) (take k (planned img ns))"
    show ?thesis by (rule writes[OF k dd o r h])
  next
    assume a: "k = 0 \<and> r \<noteq> None \<and> ns \<noteq> [] \<and> \<not> can_hold PNG (mode img) \<and>
      exists (disk s) (join dest_dir (icon_name (hd ns))) \<and>
      \<not> isdir (disk s) (join dest_dir (icon_name (hd ns))) \<and>
      disk s' = emptied (disk s) (join dest_dir (icon_name (hd ns)))"
    with o have "stdout s' = stdout s" by simp
    with a show ?thesis by (intro spoiled) simp_all
  qed
qed

lemma hd_sizes: "hd sizes = 16" "sizes \<noteq> []" "2 * length sizes = 6"
  by (simp_all add: sizes_def)

lemma try_block_traceE:
  assumes "try_block s = (s', r)"
  obtains (writes) k img where "k \<le> 6"
      "disk s' = written (disk s) (take k (planned img sizes))"
      "stdout s' = stdout s @ map saved_line (take k (targets sizes))"
      "r = None \<longleftrightarrow> k = 6"
      "0 < k \<longrightarrow> open_image (disk s) source_path = Inr img \<and> can_hold PNG (mode img)"
  | (spoiled) img where "r \<noteq> None" "open_image (disk s) source_path = Inr img"
      "\<not> can_hold PNG (mode img)"
      "exists (disk s) (join dest_dir (icon_name 16))"
      "\<not> isdir (disk s) (join dest_dir (icon_name 16))"
      "disk s' = emptied (disk s) (join dest_dir (icon_name 16))"
      "stdout s' = stdout s"
proof (cases "open_image (disk s) source_path")
  case (Inl e)
  with assms have "s' = s" "r = Some e" by (auto simp: try_block_def)
  then show ?thesis using writes[of 0 undefined] by simp
next
  case (Inr img)
  with assms have "resize_loop img sizes s = (s', r)" by (simp add: try_block_def)
  then show ?thesis
  proof (cases rule: resize_loop_traceE)
    case (writes k)
    then show ?thesis using that(1)[of k img] Inr by (simp add: hd_sizes)
  next
    case spoiled
    then show ?thesis using that(2)[of img] Inr by (simp add: hd_sizes)
  qed
qed

lemma try_block_trace:
  assumes "try_block s = (s', r)"
  shows "\<exists>k\<le>6. stdout s' = stdout s @ map saved_line (take k (targets sizes)) \<and>
     (r = None \<longleftrightarrow> k = 6)"
  using assms
proof (cases rule: try_block_traceE)
  case (writes k img)
  then show ?thesis by blast
next
  case (spoiled img)
  then show ?thesis by (intro exI[of _ 0]) simp
qed

lemma nodes_written_planned:
  assumes "d = dest_dir \<or> d = dist_dir" "n \<in> set sizes"
  shows "nodes (written fs (planned img sizes)) (join d (icon_name n)) = Some (File (Encoded PNG (resized img n)))"
proof -
  from assms(2) have n: "n = 16 \<or> n = 48 \<or> n = 128" by (simp add: sizes_def)
  with assms(1) show ?thesis
    by (auto simp: planned_sizes written_def write_file_def join_eq_iff dirs_differ
          icon_name_16 icon_name_48 icon_name_128)
qed

lemma resize_loop_append:
  "resize_loop img (xs @ ys) s =
     (case resize_loop img xs s of
        (s1, None) \<Rightarrow> resize_loop img ys s1
      | (s1, Some e) \<Rightarrow> (s1, Some e))"
  by (induction xs arbitrary: s)
     (simp_all add: Let_def split: sum.splits prod.splits option.splits)

lemma sizes_split:
  assumes "sizes = pre @ n # post"
  shows "(pre = [] \<and> n = 16 \<and> post = [48, 128]) \<or>
         (pre = [16] \<and> n = 48 \<and> post = [128]) \<or>
         (pre = [16, 48] \<and> n = 128 \<and> post = [])"
  using assms by (auto simp: sizes_def Cons_eq_append_conv)

lemma resize_loop_done:
  assumes "resize_loop img ns s = (s', None)"
  shows "disk s' = written (disk s) (planned img ns)"
    "stdout s' = stdout s @ map saved_line (targets ns)"
proof -
  from assms obtain k where k: "k \<le> 2 * length ns"
    "disk s' = written (disk s) (take k (planned img ns))"
    "stdout s' = stdout s @ map saved_line (take k (targets ns))"
    "k = 2 * length ns" by (cases rule: resize_loop_traceE) simp_all
  have "length (planned img ns) = 2 * length ns"
    using length_targets[of ns] map_fst_planned[of img ns] by (metis length_map)
  with k length_targets[of ns]
  show "disk s' = written (disk s) (planned img ns)"
    "stdout s' = stdout s @ map saved_line (targets ns)" by simp_all
qed

lemma resize_loop_one_failed:
  assumes "resize_loop img [n] s = (s', Some e)"
  shows "(disk s' = disk s \<and> stdout s' = stdout s) \<or>
         (disk s' = emptied (disk s) (join dest_dir (icon_name n)) \<and> stdout s' = stdout s \<and>
          \<not> can_hold PNG (mode img)) \<or>
         (disk s' = written (disk s) [(join dest_dir (icon_name n), resized img n)] \<and>
          stdout s' = stdout s @ [saved_line (join dest_dir (icon_name n))])"
  using assms
proof (cases rule: resize_loop_traceE)
  case (writes k)
  then have "k = 0 \<or> k = 1" by auto
  with writes(2,3) show ?thesis
    by (auto simp: planned_def targets_def)
next
  case spoiled
  then show ?thesis by simp
qed

lemma resize_loop_intact:
  "resize_loop img (n # ns) s = (s', None) \<Longrightarrow> intact img"
  by (rule ccontr) (simp add: resize_broken)

lemma sizes_nonempty: "sizes = 16 # [48, 128]"
  by (simp add: sizes_def)

lemma targets_in_dir:
  assumes "d = dest_dir \<or> d = dist_dir"
  shows "join d name \<in> set (targets ns) \<longleftrightarrow> name \<in> icon_name ` set ns"
  using assms by (auto simp: set_targets join_eq_iff dirs_differ)

lemma main_Success_disk:
  assumes "main s = (s', Success)"
  obtains fs2 img where "prepare_dirs (disk s) = (fs2, None)"
    "open_image (disk s) source_path = Inr img" "intact img"
    "resize_loop img sizes (s\<lparr>disk := fs2\<rparr>) = (s', None)"
    "disk s' = written fs2 (planned img sizes)"
    "stdout s' = stdout s @ map saved_line (targets sizes)"
proof -
  from assms obtain fs2 where p: "prepare_dirs (disk s) = (fs2, None)"
    and t: "try_block (s\<lparr>disk := fs2\<rparr>) = (s', None)" by (rule main_SuccessE)
  from t obtain img where o: "open_image (disk (s\<lparr>disk := fs2\<rparr>)) source_path = Inr img"
    and l: "resize_loop img sizes (s\<lparr>disk := fs2\<rparr>) = (s', None)" by (rule try_block_NoneE)
  from o prepare_dirs_source[OF p] have o': "open_image (disk s) source_path = Inr img" by simp
  from l have i: "intact img" unfolding sizes_nonempty by (rule resize_loop_intact)
  from resize_loop_done[OF l] have "disk s' = written fs2 (planned img sizes)"
    "stdout s' = stdout s @ map saved_line (targets sizes)" by simp_all
  with p o' i l that show ?thesis by blast
qed

lemma prepare_dirs_listdir:
  assumes "prepare_dirs fs = (fs', r)" "d = dest_dir \<or> d = dist_dir"
  shows "exists fs' (join d name) \<longleftrightarrow> exists fs (join d name)"
proof -
  have "\<not> prefix (join d name) dest_dir" "\<not> prefix (join d name) dist_dir"
    using assms(2) join_not_prefix_dirs by auto
  with prepare_dirs_nodes(3)[OF assms(1), of "join d name"]
  have "nodes fs' (join d name) = nodes fs (join d name)" by blast
  then show ?thesis by (simp add: exists_def)
qed

text \<open>
  What a run leaves: after the directories are prepared, the first \<open>k\<close> writes with
  their lines, then the error line if an exception was caught; or, with a source in a
  mode PNG cannot hold, the error line alone and the first target, if it was a file
  before, left empty.
\<close>

lemma main_trace:
  assumes "main s = (s', r)"
  obtains (writes) fs2 rp k img where "prepare_dirs (disk s) = (fs2, rp)" "k \<le> 6"
      "disk s' = written fs2 (take k (planned img sizes))"
      "stdout s' = stdout s @ map saved_line (take k (targets sizes)) @
         (case r of Handled e \<Rightarrow> [error_line e] | _ \<Rightarrow> [])"
      "r = Success \<longleftrightarrow> k = 6"
      "(\<exists>e. r = Crashed e) \<longrightarrow> k = 0"
      "rp = (case r of Crashed e \<Rightarrow> Some e | _ \<Rightarrow> None)"
      "0 < k \<longrightarrow> open_image fs2 source_path = Inr img \<and> can_hold PNG (mode img)"
  | (spoiled) fs2 img e where "prepare_dirs (disk s) = (fs2, None)" "r = Handled e"
      "open_image fs2 source_path = Inr img" "\<not> can_hold PNG (mode img)"
      "exists fs2 (join dest_dir (icon_name 16))"
      "\<not> isdir fs2 (join dest_dir (icon_name 16))"
      "disk s' = emptied fs2 (join dest_dir (icon_name 16))"
      "stdout s' = stdout s @ [error_line e]"
proof (cases s rule: main_cases)
  case (crashed fs2 e)
  with assms have s': "s' = s\<lparr>disk := fs2\<rparr>" "r = Crashed e" by simp_all
  show ?thesis
    by (rule writes[of fs2 "Some e" 0 undefined]) (simp_all add: s' crashed(1))
next
  case (handled fs2 s3 e)
  with assms have s': "s' = print s3 (error_line e)" "r = Handled e" by simp_all
  from handled(2) show ?thesis
  proof (cases rule: try_block_traceE)
    case (writes k img)
    show ?thesis
      by (rule that(1)[of fs2 None k img]) (use writes in \<open>simp_all add: s' handled(1) print_def\<close>)
  next
    case (spoiled img)
    show ?thesis
      by (rule that(2)[of fs2 e img]) (use spoiled in \<open>simp_all add: s' handled(1) print_def\<close>)
  qed
next
  case (success fs2 s3)
  with assms have s': "s' = s3" "r = Success" by simp_all
  from success(2) show ?thesis
  proof (cases rule: try_block_traceE)
    case (writes k img)
    show ?thesis
      by (rule that(1)[of fs2 None k img]) (use writes in \<open>simp_all add: s' success(1)\<close>)
  next
    case (spoiled img)
    then show ?thesis by simp
  qed
qed

lemma fst_set_planned: "fst ` set (planned img ns) = set (targets ns)"
  using map_fst_planned[of img ns] by (metis set_map)

lemma take_all_planned: "take 6 (planned img sizes) = planned img sizes"
  by (simp add: planned_sizes)



lemma fst_set_take_planned:
  "fst ` set (take k (planned img ns)) = set (take k (targets ns))"
proof -
  have "map fst (take k (planned img ns)) = take k (map fst (planned img ns))"
    by (simp add: take_map)
  then have "map fst (take k (planned img ns)) = take k (targets ns)"
    by (simp only: map_fst_planned)
  then show ?thesis by (metis set_map)
qed

lemma prepare_dirs_source_node:
  assumes "prepare_dirs fs = (fs', r)"
  shows "nodes fs' source_path = nodes fs source_path"
  using prepare_dirs_nodes(3)[OF assms, of source_path] source_not_prefix by blast

lemma prepare_dirs_isdir:
  assumes "prepare_dirs fs = (fs', None)" "d = dest_dir \<or> d = dist_dir"
    "\<not> exists fs d \<or> isdir fs d"
  shows "isdir fs' d"
proof -
  from assms(1) obtain fs1 where 1: "prepare_dir fs dest_dir = (fs1, None)"
    and 2: "prepare_dir fs1 dist_dir = (fs', None)"
    by (auto elim: prepare_dirs_cases)
  from prepare_dir_nodes[OF 1] have n1: "\<And>q. nodes fs1 q = nodes fs q \<or> nodes fs1 q = Some Dir"
    by blast
  from prepare_dir_nodes[OF 2] have n2: "\<And>q. nodes fs' q = nodes fs1 q \<or> nodes fs' q = Some Dir"
    by blast
  from assms(2) show ?thesis
  proof
    assume d: "d = dest_dir"
    with assms(3) 1 have "isdir fs1 dest_dir" by (simp add: prepare_dir_isdir)
    with n2[of dest_dir] d show ?thesis by (auto simp: isdir_def)
  next
    assume d: "d = dist_dir"
    from assms(3) n1[of dist_dir] have "\<not> exists fs1 dist_dir \<or> isdir fs1 dist_dir"
      by (auto simp: d exists_def isdir_def)
    with 2 d show ?thesis by (simp add: prepare_dir_isdir)
  qed
qed

lemma main_handled:
  "prepare_dirs (disk s) = (fs2, None) \<Longrightarrow> try_block (s\<lparr>disk := fs2\<rparr>) = (s3, Some e) \<Longrightarrow>
   main s = (print s3 (error_line e), Handled e)"
  by (simp add: main_def)

lemma main_open_failed:
  assumes "prepare_dirs (disk s) = (fs2, None)" "open_image (disk s) source_path = Inl e"
  shows "main s = (print (s\<lparr>disk := fs2\<rparr>) (error_line e), Handled e)"
proof -
  from assms(2) prepare_dirs_source[OF assms(1)]
  have "open_image fs2 source_path = Inl e" by simp
  then have "try_block (s\<lparr>disk := fs2\<rparr>) = (s\<lparr>disk := fs2\<rparr>, Some e)"
    by (simp add: try_block_def)
  with assms(1) show ?thesis by (rule main_handled)
qed

lemma main_first_step_failed:
  assumes "prepare_dirs (disk s) = (fs2, None)" "open_image (disk s) source_path = Inr img"
    "resize_loop img [16] (s\<lparr>disk := fs2\<rparr>) = (s\<lparr>disk := fs2\<rparr>, Some e)"
  shows "main s = (print (s\<lparr>disk := fs2\<rparr>) (error_line e), Handled e)"
proof -
  from assms(2) prepare_dirs_source[OF assms(1)]
  have o: "open_image fs2 source_path = Inr img" by simp
  have "resize_loop img sizes (s\<lparr>disk := fs2\<rparr>) = (s\<lparr>disk := fs2\<rparr>, Some e)"
    using resize_loop_append[of img "[16]" "[48, 128]" "s\<lparr>disk := fs2\<rparr>"] assms(3)
    by (simp add: sizes_def)
  with o have "try_block (s\<lparr>disk := fs2\<rparr>) = (s\<lparr>disk := fs2\<rparr>, Some e)"
    by (simp add: try_block_def)
  with assms(1) show ?thesis by (rule main_handled)
qed

lemma error_line_has_Error: "sublist ''Error'' (error_line e)"
proof -
  have "error_line e = [] @ ''Error'' @ ('' processing image: '' @ str_error e)"
    by (simp add: error_line_def)
  then show ?thesis unfolding sublist_def by blast
qed

lemma save_isdir: "save fs p img = (fs', r) \<Longrightarrow> isdir fs' q = isdir fs q"
  by (auto simp: save_def Let_def isdir_def split: option.splits if_splits)

lemma resize_loop_isdir:
  "resize_loop img ns s = (s', r) \<Longrightarrow> isdir (disk s') q = isdir (disk s) q"
proof (induction ns arbitrary: s)
  case Nil
  then show ?case by simp
next
  case (Cons n ns)
  show ?case
  proof (cases "resize img (n, n) LANCZOS")
    case (Inl e)
    with Cons.prems show ?thesis by simp
  next
    case (Inr ri)
    obtain fs1 r1 where s1: "save (disk s) (join dest_dir (icon_name n)) ri = (fs1, r1)"
      by (cases "save (disk s) (join dest_dir (icon_name n)) ri")
    from save_isdir[OF s1] have i1: "isdir fs1 q = isdir (disk s) q" .
    show ?thesis
    proof (cases r1)
      case (Some e)
      with Cons.prems Inr s1 i1 show ?thesis by auto
    next
      case None
      let ?t1 = "print (s\<lparr>disk := fs1\<rparr>) (saved_line (join dest_dir (icon_name n)))"
      obtain fs2 r2 where s2: "save fs1 (join dist_dir (icon_name n)) ri = (fs2, r2)"
        by (cases "save fs1 (join dist_dir (icon_name n)) ri")
      from save_isdir[OF s2] i1 have i2: "isdir fs2 q = isdir (disk s) q" by simp
      show ?thesis
      proof (cases r2)
        case (Some e)
        with Cons.prems Inr s1 None s2 i2 show ?thesis
          by (auto simp: print_def)
      next
        case r2: None
        let ?t2 = "print (?t1\<lparr>disk := fs2\<rparr>) (saved_line (join dist_dir (icon_name n)))"
        from Cons.prems Inr s1 None s2 r2 have "resize_loop img ns ?t2 = (s', r)"
          by (simp add: print_def)
        from Cons.IH[OF this] i2 show ?thesis by (simp add: print_def)
      qed
    qed
  qed
qed

lemma try_block_isdir:
  "try_block s = (s', r) \<Longrightarrow> isdir (disk s') q = isdir (disk s) q"
  by (cases "open_image (disk s) source_path")
     (auto simp: try_block_def dest: resize_loop_isdir)

lemma main_isdir:
  assumes "prepare_dirs (disk s) = (fs2, None)" "main s = (s', r)"
  shows "isdir (disk s') q = isdir fs2 q"
proof (cases s rule: main_cases)
  case (crashed fs2' e)
  with assms show ?thesis by simp
next
  case (handled fs2' s3 e)
  with assms have "fs2' = fs2" "s' = print s3 (error_line e)" by simp_all
  with try_block_isdir[OF handled(2), of q] show ?thesis by (simp add: print_def)
next
  case (success fs2' s3)
  with assms have "fs2' = fs2" "s' = s3" by simp_all
  with try_block_isdir[OF success(2), of q] show ?thesis by simp
qed

lemma exists_emptied: "exists fs q \<Longrightarrow> exists (emptied fs p) q"
  by (simp add: exists_def emptied_def)

lemma main_exists_mono:
  assumes "prepare_dirs (disk s) = (fs2, None)" "main s = (s', r)" "exists fs2 q"
  shows "exists (disk s') q"
  using assms(2)
proof (cases rule: main_trace)
  case (writes fs2' rp k img)
  with assms(1) have "disk s' = written fs2 (take k (planned img sizes))" by simp
  with assms(3) show ?thesis by (simp add: exists_written)
next
  case (spoiled fs2' img e)
  with assms(1) have "disk s' = emptied fs2 (join dest_dir (icon_name 16))" by simp
  with assms(3) show ?thesis by (simp add: exists_emptied)
qed

lemma wf_fs_prefix_exists_isdir:
  assumes "wf_fs fs" "isdir fs p" "prefix q p" "q \<noteq> []"
  shows "isdir fs q"
proof (cases "q = p")
  case True
  with assms(2) show ?thesis by simp
next
  case False
  with assms(3) have "strict_prefix q p" by (simp add: strict_prefix_def)
  moreover from assms(2) have "exists fs p" by (simp add: exists_def isdir_def)
  ultimately show ?thesis using assms(1,4) by (blast intro: wf_fs_prefix_isdir)
qed

lemma prepare_dir_succeeds:
  assumes "wf_fs fs" "isdir fs [hd d]" "2 \<le> length d"
    "\<forall>q. prefix q d \<and> q \<noteq> [] \<longrightarrow> \<not> denied fs q \<and> (exists fs q \<longrightarrow> isdir fs q)"
  shows "snd (prepare_dir fs d) = None"
proof (cases "exists fs d")
  case True
  then show ?thesis by (simp add: prepare_dir_def)
next
  case False
  have "\<forall>q. strict_prefix q d \<and> q \<noteq> [] \<longrightarrow> \<not> denied fs q \<and> (exists fs q \<longrightarrow> isdir fs q)"
    using assms(4) by (simp add: strict_prefix_def)
  with assms(1) False assms(3,2) have "snd (makedirs fs d) = None"
    by (rule makedirs_succeeds)
  with False show ?thesis by (simp add: prepare_dir_def)
qed

lemma prepare_dirs_succeeds:
  assumes "wf_fs fs" "isdir fs [''D:'']"
    "\<forall>q. (prefix q dest_dir \<or> prefix q dist_dir) \<and> q \<noteq> [] \<longrightarrow>
         \<not> denied fs q \<and> (exists fs q \<longrightarrow> isdir fs q)"
  shows "snd (prepare_dirs fs) = None"
proof -
  obtain fs1 r1 where 1: "prepare_dir fs dest_dir = (fs1, r1)"
    by (cases "prepare_dir fs dest_dir")
  have "snd (prepare_dir fs dest_dir) = None"
    using assms by (intro prepare_dir_succeeds) (simp_all add: hd_paths length_dirs)
  with 1 have r1: "r1 = None" by simp
  from wf_fs_prepare_dir[OF assms(1) 1] have w1: "wf_fs fs1" .
  from prepare_dir_nodes[OF 1] have n1: "denied fs1 = denied fs"
    "\<And>q. nodes fs1 q = nodes fs q \<or> nodes fs1 q = Some Dir" by blast+
  have d1: "isdir fs1 [hd dist_dir]"
    using assms(2) n1(2)[of "[''D:'']"] by (auto simp: hd_paths isdir_def)
  have c1: "\<forall>q. prefix q dist_dir \<and> q \<noteq> [] \<longrightarrow> \<not> denied fs1 q \<and> (exists fs1 q \<longrightarrow> isdir fs1 q)"
  proof (intro allI impI)
    fix q assume q: "prefix q dist_dir \<and> q \<noteq> []"
    with assms(3) have a: "\<not> denied fs q" "exists fs q \<longrightarrow> isdir fs q" by blast+
    from a n1(2)[of q] show "\<not> denied fs1 q \<and> (exists fs1 q \<longrightarrow> isdir fs1 q)"
      by (auto simp: n1(1) exists_def isdir_def)
  qed
  have "snd (prepare_dir fs1 dist_dir) = None"
    using w1 d1 c1 by (intro prepare_dir_succeeds) (simp_all add: length_dirs)
  with 1 r1 show ?thesis by (simp add: prepare_dirs_def)
qed

lemma save_icon_ok:
  assumes "save fs (join d (icon_name n)) img = (fs', None)" "intact img"
  shows "isdir fs d" "\<not> denied fs (join d (icon_name n))"
    "fs' = written fs [(join d (icon_name n), img)]" "can_hold PNG (mode img)"
  using assms by (auto simp: save_icon split: if_splits)

lemma resize_loop_success_facts:
  "resize_loop img ns s = (s', None) \<Longrightarrow>
   (\<forall>t\<in>set (targets ns). \<not> denied (disk s) t) \<and>
   (\<forall>n\<in>set ns. resize img (n, n) LANCZOS = Inr (resized img n)) \<and>
   (ns \<noteq> [] \<longrightarrow> intact img \<and> can_hold PNG (mode img) \<and>
      isdir (disk s) dest_dir \<and> isdir (disk s) dist_dir)"
proof (induction ns arbitrary: s)
  case Nil
  then show ?case by (simp add: targets_def)
next
  case (Cons n ns)
  let ?a = "join dest_dir (icon_name n)" and ?b = "join dist_dir (icon_name n)"
  from Cons.prems have i: "intact img" by (rule resize_loop_intact)
  obtain ri where rs0: "resize img (n, n) LANCZOS = Inr ri"
    using Cons.prems by (cases "resize img (n, n) LANCZOS") simp_all
  from resize_Inr[OF rs0] have ri: "ri = resized img n" and ii: "intact (resized img n)"
    by simp_all
  note rs = rs0[unfolded ri]
  obtain fs1 r1 where s1: "save (disk s) ?a (resized img n) = (fs1, r1)"
    by (cases "save (disk s) ?a (resized img n)")
  have r1: "r1 = None"
  proof (cases r1)
    case (Some e)
    with Cons.prems rs s1 show ?thesis by simp
  qed simp
  from save_icon_ok[OF s1[unfolded r1] ii]
  have a: "isdir (disk s) dest_dir" "\<not> denied (disk s) ?a" "can_hold PNG (mode img)"
    and fs1: "fs1 = written (disk s) [(?a, resized img n)]" by simp_all
  let ?t1 = "print (s\<lparr>disk := fs1\<rparr>) (saved_line ?a)"
  obtain fs2 r2 where s2: "save fs1 ?b (resized img n) = (fs2, r2)"
    by (cases "save fs1 ?b (resized img n)")
  have r2: "r2 = None"
  proof (cases r2)
    case (Some e)
    with Cons.prems rs s1 r1 s2 show ?thesis by (simp add: print_def)
  qed simp
  from save_icon_ok[OF s2[unfolded r2] ii]
  have b: "isdir fs1 dist_dir" "\<not> denied fs1 ?b"
    and fs2: "fs2 = written fs1 [(?b, resized img n)]" by simp_all
  from b have b': "isdir (disk s) dist_dir" "\<not> denied (disk s) ?b"
    by (simp_all add: fs1 isdir_written)
  let ?t2 = "print (?t1\<lparr>disk := fs2\<rparr>) (saved_line ?b)"
  from Cons.prems rs s1 r1 s2 r2 have "resize_loop img ns ?t2 = (s', None)"
    by (simp add: print_def)
  from Cons.IH[OF this] have ih: "\<forall>t\<in>set (targets ns). \<not> denied (disk ?t2) t"
    "\<forall>n\<in>set ns. resize img (n, n) LANCZOS = Inr (resized img n)" by blast+
  moreover have "denied (disk ?t2) = denied (disk s)"
    by (simp add: print_def fs2 fs1)
  ultimately have c: "\<forall>t\<in>set (targets ns). \<not> denied (disk s) t" by simp
  have "set (targets (n # ns)) = {?a, ?b} \<union> set (targets ns)"
    by (auto simp: set_targets)
  with a b' c i ih(2) rs show ?case by auto
qed

lemma resize_loop_rerun:
  assumes "can_hold PNG (mode img)" "isdir (disk t) dest_dir" "isdir (disk t) dist_dir"
    and "\<forall>n\<in>set ns. resize img (n, n) LANCZOS = Inr (resized img n)"
    and "\<forall>n\<in>set ns.
       nodes (disk t) (join dest_dir (icon_name n)) = Some (File (Encoded PNG (resized img n))) \<and>
       nodes (disk t) (join dist_dir (icon_name n)) = Some (File (Encoded PNG (resized img n))) \<and>
       \<not> denied (disk t) (join dest_dir (icon_name n)) \<and>
       \<not> denied (disk t) (join dist_dir (icon_name n))"
  shows "resize_loop img ns t = (t\<lparr>stdout := stdout t @ map saved_line (targets ns)\<rparr>, None)"
  using assms
proof (induction ns arbitrary: t)
  case Nil
  then show ?case by (simp add: targets_def)
next
  case (Cons n ns)
  let ?a = "join dest_dir (icon_name n)" and ?b = "join dist_dir (icon_name n)"
  from Cons.prems(4) have rs: "resize img (n, n) LANCZOS = Inr (resized img n)" by simp
  from resize_Inr[OF rs] have ii: "intact (resized img n)" by simp
  from Cons.prems(5) have na: "nodes (disk t) ?a = Some (File (Encoded PNG (resized img n)))"
    and nb: "nodes (disk t) ?b = Some (File (Encoded PNG (resized img n)))"
    and da: "\<not> denied (disk t) ?a" and db: "\<not> denied (disk t) ?b" by simp_all
  have sa: "save (disk t) ?a (resized img n) = (disk t, None)"
    using Cons.prems(1,2) na da ii by (simp add: save_icon isdir_def exists_def written_idem)
  have sb: "save (disk t) ?b (resized img n) = (disk t, None)"
    using Cons.prems(1,3) nb db ii by (simp add: save_icon isdir_def exists_def written_idem)
  let ?t2 = "t\<lparr>stdout := stdout t @ [saved_line ?a, saved_line ?b]\<rparr>"
  have step: "resize_loop img (n # ns) t = resize_loop img ns ?t2"
    using rs sa sb by (simp add: print_def)
  have "resize_loop img ns ?t2 = (?t2\<lparr>stdout := stdout ?t2 @ map saved_line (targets ns)\<rparr>, None)"
    using Cons.prems by (intro Cons.IH) simp_all
  with step show ?case by (simp add: targets_def)
qed



lemma files_after_success:
  assumes "main s = (s', Success)"
  shows "\<forall>p c. nodes (disk s') p = Some (File c) \<longrightarrow>
       p \<in> set (targets sizes) \<or> nodes (disk s) p = Some (File c)"
proof (intro allI impI)
  from assms obtain fs2 img where p: "prepare_dirs (disk s) = (fs2, None)"
    and d: "disk s' = written fs2 (planned img sizes)"
    by (rule main_Success_disk)
  fix q c assume f: "nodes (disk s') q = Some (File c)"
  show "q \<in> set (targets sizes) \<or> nodes (disk s) q = Some (File c)"
  proof (cases "q \<in> fst ` set (planned img sizes)")
    case True
    then show ?thesis by (simp add: fst_set_planned)
  next
    case False
    from nodes_written_other[OF this, of fs2] f d
    have "nodes fs2 q = Some (File c)" by simp
    with prepare_dirs_file_kept[OF p] show ?thesis by simp
  qed
qed

lemma icons_listing:
  assumes "main s = (s', Success)" "d = dest_dir \<or> d = dist_dir"
  shows "listdir (disk s') d = listdir (disk s) d \<union> icon_name ` set sizes"
proof -
  from assms(1) obtain fs2 img where p: "prepare_dirs (disk s) = (fs2, None)"
    and dd: "disk s' = written fs2 (planned img sizes)"
    by (rule main_Success_disk)
  have "\<And>name. exists (disk s') (join d name) \<longleftrightarrow>
      exists (disk s) (join d name) \<or> name \<in> icon_name ` set sizes"
    using prepare_dirs_listdir[OF p assms(2)] targets_in_dir[OF assms(2), of _ sizes]
    by (simp add: dd exists_written fst_set_planned)
  then show ?thesis by (auto simp: listdir_def)
qed

section \<open>The claims\<close>

text \<open>
  C1 (as amended).  After a successful run each destination directory holds
  \<^verbatim>\<open>icon16.png\<close>, \<^verbatim>\<open>icon48.png\<close> and \<^verbatim>\<open>icon128.png\<close>, the file of size \<open>n\<close>
  being a PNG of \<open>n\<close> by \<open>n\<close> pixels resampled from the source; the six paths are
  distinct, so every size is written at exactly two places, and no file is written
  anywhere else.  Nothing is deleted: the entries of a destination directory after the
  run are those it had before together with the three icons, so it holds exactly the
  three icons when it held nothing else before.
\<close>

theorem icons_after_success:
  assumes "main s = (s', Success)"
  shows "\<exists>img. open_image (disk s) source_path = Inr img \<and> intact img \<and>
    (\<forall>n\<in>set sizes. \<forall>d\<in>{dest_dir, dist_dir}.
       nodes (disk s') (join d (icon_name n)) = Some (File (Encoded PNG (resized img n))) \<and>
       width (resized img n) = n \<and> height (resized img n) = n) \<and>
    set sizes = {16, 48, 128} \<and>
    icon_name ` set sizes = {''icon16.png'', ''icon48.png'', ''icon128.png''} \<and>
    distinct (targets sizes) \<and> length (targets sizes) = 6 \<and>
    (\<forall>p c. nodes (disk s') p = Some (File c) \<longrightarrow>
       p \<in> set (targets sizes) \<or> nodes (disk s) p = Some (File c)) \<and>
    (\<forall>d\<in>{dest_dir, dist_dir}.
       listdir (disk s') d = listdir (disk s) d \<union> icon_name ` set sizes \<and>
       (listdir (disk s) d \<subseteq> icon_name ` set sizes \<longrightarrow>
        listdir (disk s') d = icon_name ` set sizes))"
proof -
  from assms obtain fs2 img where p: "prepare_dirs (disk s) = (fs2, None)"
    and o: "open_image (disk s) source_path = Inr img" and i: "intact img"
    and d: "disk s' = written fs2 (planned img sizes)"
    by (rule main_Success_disk)
  have a: "\<forall>n\<in>set sizes. \<forall>d\<in>{dest_dir, dist_dir}.
       nodes (disk s') (join d (icon_name n)) = Some (File (Encoded PNG (resized img n))) \<and>
       width (resized img n) = n \<and> height (resized img n) = n"
    by (auto simp: d nodes_written_planned resized_def)
  have b1: "set sizes = {16, 48, 128}" by (simp add: sizes_def)
  have b2: "icon_name ` set sizes = {''icon16.png'', ''icon48.png'', ''icon128.png''}"
    by (simp add: sizes_def icon_name_16 icon_name_48 icon_name_128)
  have c1: "distinct (targets sizes)" by (rule distinct_targets_sizes)
  have c2: "length (targets sizes) = 6" by (simp add: length_targets sizes_def)
  have e: "\<forall>p c. nodes (disk s') p = Some (File c) \<longrightarrow>
       p \<in> set (targets sizes) \<or> nodes (disk s) p = Some (File c)"
  proof (intro allI impI)
    fix q c assume f: "nodes (disk s') q = Some (File c)"
    show "q \<in> set (targets sizes) \<or> nodes (disk s) q = Some (File c)"
    proof (cases "q \<in> fst ` set (planned img sizes)")
      case True
      then show ?thesis using map_fst_planned[of img sizes] by (metis set_map)
    next
      case False
      from nodes_written_other[OF this, of fs2] f d
      have "nodes fs2 q = Some (File c)" by simp
      with prepare_dirs_file_kept[OF p] show ?thesis by simp
    qed
  qed
  have g: "\<forall>d\<in>{dest_dir, dist_dir}.
       listdir (disk s') d = listdir (disk s) d \<union> icon_name ` set sizes \<and>
       (listdir (disk s) d \<subseteq> icon_name ` set sizes \<longrightarrow>
        listdir (disk s') d = icon_name ` set sizes)"
  proof
    fix dd assume "dd \<in> {dest_dir, dist_dir}"
    then have dd: "dd = dest_dir \<or> dd = dist_dir" by simp
    have fp: "fst ` set (planned img sizes) = set (targets sizes)"
      using map_fst_planned[of img sizes] by (metis set_map)
    have "\<And>name. exists (disk s') (join dd name) \<longleftrightarrow>
        exists (disk s) (join dd name) \<or> name \<in> icon_name ` set sizes"
      using prepare_dirs_listdir[OF p dd] targets_in_dir[OF dd, of _ sizes]
      by (simp add: d exists_written fp)
    then have "listdir (disk s') dd = listdir (disk s) dd \<union> icon_name ` set sizes"
      by (auto simp: listdir_def)
    then show "listdir (disk s') dd = listdir (disk s) dd \<union> icon_name ` set sizes \<and>
       (listdir (disk s) dd \<subseteq> icon_name ` set sizes \<longrightarrow>
        listdir (disk s') dd = icon_name ` set sizes)" by auto
  qed
  show ?thesis
    by (intro exI[of _ img] conjI o i a b1 b2 c1 c2 e g)
qed

theorem icons_after_success_witness:
  "snd (main ready_state) = Success \<and>
   listdir (disk (fst (main ready_state))) dist_dir = {''icon16.png'', ''icon48.png'', ''icon128.png''}"
proof -
  have r: "snd (main ready_state) = Success" by code_simp
  then have h: "main ready_state = (fst (main ready_state), Success)"
    by (simp add: prod_eq_iff)
  have "\<And>name. \<not> exists (disk ready_state) (join dist_dir name)"
    by (simp add: ready_state_def ready_fs_def exists_def join_not_prefix_dirs
          source_ne_join[symmetric])
  then have e: "listdir (disk ready_state) dist_dir = {}"
    by (simp add: listdir_def)
  from icons_after_success[OF h]
  have "icon_name ` set sizes = {''icon16.png'', ''icon48.png'', ''icon128.png''}"
    and "\<forall>d\<in>{dest_dir, dist_dir}.
       listdir (disk (fst (main ready_state))) d = listdir (disk ready_state) d \<union> icon_name ` set sizes \<and>
       (listdir (disk ready_state) d \<subseteq> icon_name ` set sizes \<longrightarrow>
        listdir (disk (fst (main ready_state))) d = icon_name ` set sizes)"
    by blast+
  with e r show ?thesis by simp
qed

theorem icons_exactly_three_counterexample:
  "snd (main stale_state) = Success \<and>
   ''logo.png'' \<in> listdir (disk (fst (main stale_state))) dist_dir \<and>
   listdir (disk (fst (main stale_state))) dist_dir \<noteq> {''icon16.png'', ''icon48.png'', ''icon128.png''}"
proof -
  have r: "snd (main stale_state) = Success" by code_simp
  have "exists (disk (fst (main stale_state))) (join dist_dir ''logo.png'')" by code_simp
  then have m: "''logo.png'' \<in> listdir (disk (fst (main stale_state))) dist_dir"
    by (simp add: listdir_def)
  have "listdir (disk (fst (main stale_state))) dist_dir \<noteq> {''icon16.png'', ''icon48.png'', ''icon128.png''}"
  proof
    assume "listdir (disk (fst (main stale_state))) dist_dir = {''icon16.png'', ''icon48.png'', ''icon128.png''}"
    with m have "''logo.png'' \<in> {''icon16.png'', ''icon48.png'', ''icon128.png''}" by simp
    then show False by simp
  qed
  with r m show ?thesis by simp
qed




text \<open>
  C3 (as amended).  An exception raised inside the \<^verbatim>\<open>try\<close> block is caught: a missing
  source, a source that cannot be read or is no image, a truncated image, a save that is
  refused.  The run then prints the \<^verbatim>\<open>Saved\<close> lines of the saves already done and one
  \<^verbatim>\<open>Error processing image\<close> line, and the process ends normally.  The two
  \<^verbatim>\<open>os.makedirs\<close> calls stand before the \<^verbatim>\<open>try\<close> block: an exception they raise is
  not caught, and it ends the process before anything is printed.
\<close>

theorem try_block_failures_are_caught:
  "(\<forall>fs2 e. prepare_dirs (disk s) = (fs2, Some e) \<longrightarrow> main s = (s\<lparr>disk := fs2\<rparr>, Crashed e)) \<and>
   (\<forall>fs2. prepare_dirs (disk s) = (fs2, None) \<longrightarrow>
      (\<forall>e. snd (main s) \<noteq> Crashed e) \<and>
      (\<forall>e. snd (try_block (s\<lparr>disk := fs2\<rparr>)) = Some e \<longrightarrow>
         snd (main s) = Handled e \<and>
         (\<exists>k<6. stdout (fst (main s)) =
            stdout s @ map saved_line (take k (targets sizes)) @ [error_line e])) \<and>
      (nodes (disk s) source_path = None \<longrightarrow>
         snd (main s) = Handled (FileNotFoundError source_path)) \<and>
      (nodes (disk s) source_path = Some Dir \<longrightarrow>
         snd (main s) = Handled (PermissionError source_path)) \<and>
      (\<forall>c. nodes (disk s) source_path = Some (File c) \<and> unreadable (disk s) source_path \<longrightarrow>
         snd (main s) = Handled (PermissionError source_path)) \<and>
      (\<forall>bs. nodes (disk s) source_path = Some (File (Garbage bs)) \<and>
            \<not> unreadable (disk s) source_path \<longrightarrow>
         snd (main s) = Handled (UnidentifiedImageError source_path)) \<and>
      (\<forall>f img. nodes (disk s) source_path = Some (File (Encoded f img)) \<and>
            \<not> unreadable (disk s) source_path \<and> \<not> intact img \<longrightarrow>
         snd (main s) = Handled (OSError ''image file is truncated'')) \<and>
      (\<forall>f img. nodes (disk s) source_path = Some (File (Encoded f img)) \<and>
            \<not> unreadable (disk s) source_path \<and> intact img \<and> isdir fs2 dest_dir \<and>
            denied (disk s) (join dest_dir (icon_name 16)) \<longrightarrow>
         snd (main s) = Handled (PermissionError (join dest_dir (icon_name 16)))))"
proof (intro conjI allI impI)
  fix fs2 e assume "prepare_dirs (disk s) = (fs2, Some e)"
  then show "main s = (s\<lparr>disk := fs2\<rparr>, Crashed e)" by (rule main_crash)
next
  fix fs2 e assume p: "prepare_dirs (disk s) = (fs2, None)"
  show "snd (main s) \<noteq> Crashed e"
    using p by (cases s rule: main_cases) simp_all
next
  fix fs2 e assume p: "prepare_dirs (disk s) = (fs2, None)"
    and t: "snd (try_block (s\<lparr>disk := fs2\<rparr>)) = Some e"
  then have t': "try_block (s\<lparr>disk := fs2\<rparr>) = (fst (try_block (s\<lparr>disk := fs2\<rparr>)), Some e)"
    by (simp add: prod_eq_iff)
  from main_handled[OF p t'] show "snd (main s) = Handled e" by simp
next
  fix fs2 e assume p: "prepare_dirs (disk s) = (fs2, None)"
    and t: "snd (try_block (s\<lparr>disk := fs2\<rparr>)) = Some e"
  then have t': "try_block (s\<lparr>disk := fs2\<rparr>) = (fst (try_block (s\<lparr>disk := fs2\<rparr>)), Some e)"
    by (simp add: prod_eq_iff)
  from try_block_trace[OF t'] obtain k img where k: "k \<le> 6" "k \<noteq> 6"
    "stdout (fst (try_block (s\<lparr>disk := fs2\<rparr>))) =
       stdout (s\<lparr>disk := fs2\<rparr>) @ map saved_line (take k (targets sizes))"
    by force
  from k(1,2) have "k < 6" by simp
  moreover from main_handled[OF p t'] k(3)
  have "stdout (fst (main s)) = stdout s @ map saved_line (take k (targets sizes)) @ [error_line e]"
    by (simp add: print_def)
  ultimately show "\<exists>k<6. stdout (fst (main s)) =
       stdout s @ map saved_line (take k (targets sizes)) @ [error_line e]" by blast
next
  fix fs2 assume p: "prepare_dirs (disk s) = (fs2, None)"
    and "nodes (disk s) source_path = None"
  then have "open_image (disk s) source_path = Inl (FileNotFoundError source_path)"
    by (simp add: open_image_def)
  from main_open_failed[OF p this] show "snd (main s) = Handled (FileNotFoundError source_path)"
    by simp
next
  fix fs2 assume p: "prepare_dirs (disk s) = (fs2, None)"
    and "nodes (disk s) source_path = Some Dir"
  then have "open_image (disk s) source_path = Inl (PermissionError source_path)"
    by (simp add: open_image_def)
  from main_open_failed[OF p this] show "snd (main s) = Handled (PermissionError source_path)"
    by simp
next
  fix fs2 c assume p: "prepare_dirs (disk s) = (fs2, None)"
    and "nodes (disk s) source_path = Some (File c) \<and> unreadable (disk s) source_path"
  then have "open_image (disk s) source_path = Inl (PermissionError source_path)"
    by (simp add: open_image_def)
  from main_open_failed[OF p this] show "snd (main s) = Handled (PermissionError source_path)"
    by simp
next
  fix fs2 bs assume p: "prepare_dirs (disk s) = (fs2, None)"
    and "nodes (disk s) source_path = Some (File (Garbage bs)) \<and> \<not> unreadable (disk s) source_path"
  then have "open_image (disk s) source_path = Inl (UnidentifiedImageError source_path)"
    by (simp add: open_image_def)
  from main_open_failed[OF p this]
  show "snd (main s) = Handled (UnidentifiedImageError source_path)" by simp
next
  fix fs2 f img assume p: "prepare_dirs (disk s) = (fs2, None)"
    and a: "nodes (disk s) source_path = Some (File (Encoded f img)) \<and>
            \<not> unreadable (disk s) source_path \<and> \<not> intact img"
  then have o: "open_image (disk s) source_path = Inr img"
    by (simp add: open_image_def)
  from a have "resize_loop img [16] (s\<lparr>disk := fs2\<rparr>) =
      (s\<lparr>disk := fs2\<rparr>, Some (OSError ''image file is truncated''))"
    by (simp add: resize_broken)
  from main_first_step_failed[OF p o this]
  show "snd (main s) = Handled (OSError ''image file is truncated'')" by simp
next
  fix fs2 f img assume p: "prepare_dirs (disk s) = (fs2, None)"
    and a: "nodes (disk s) source_path = Some (File (Encoded f img)) \<and>
            \<not> unreadable (disk s) source_path \<and> intact img \<and> isdir fs2 dest_dir \<and>
            denied (disk s) (join dest_dir (icon_name 16))"
  then have o: "open_image (disk s) source_path = Inr img"
    by (simp add: open_image_def)
  from prepare_dirs_nodes(1)[OF p] a
  have "save fs2 (join dest_dir (icon_name 16)) (resized img 16) =
      (fs2, Some (PermissionError (join dest_dir (icon_name 16))))"
    by (simp add: save_icon intact_resized)
  with a have "resize_loop img [16] (s\<lparr>disk := fs2\<rparr>) =
      (s\<lparr>disk := fs2\<rparr>, Some (PermissionError (join dest_dir (icon_name 16))))"
    by (simp add: resize_resized)
  from main_first_step_failed[OF p o this]
  show "snd (main s) = Handled (PermissionError (join dest_dir (icon_name 16)))" by simp
qed

theorem try_block_failures_are_caught_witness:
  "prepare_dirs (disk garbage_state) = (disk garbage_state, None) \<and>
   nodes (disk garbage_state) source_path = Some (File (Garbage [])) \<and>
   \<not> unreadable (disk garbage_state) source_path \<and>
   snd (main garbage_state) = Handled (UnidentifiedImageError source_path)"
proof -
  have ex: "exists (disk garbage_state) dest_dir" "exists (disk garbage_state) dist_dir"
    by code_simp+
  then have h: "prepare_dirs (disk garbage_state) = (disk garbage_state, None)"
    by (rule prepare_dirs_noop)
  have n: "nodes (disk garbage_state) source_path = Some (File (Garbage []))"
    "\<not> unreadable (disk garbage_state) source_path"
    by (simp_all add: garbage_state_def ready_fs_def)
  from try_block_failures_are_caught[of garbage_state] h n
  have "snd (main garbage_state) = Handled (UnidentifiedImageError source_path)" by blast
  with h n show ?thesis by (intro conjI)
qed

theorem makedirs_failure_escapes_counterexample:
  "snd (main denied_state) = Crashed (PermissionError [''D:'', ''AI_project'', ''web-scraper'']) \<and>
   stdout (fst (main denied_state)) = []"
proof -
  have "snd (main denied_state) = Crashed (PermissionError [''D:'', ''AI_project'', ''web-scraper''])"
    by code_simp
  moreover have "stdout (fst (main denied_state)) = []" by code_simp
  ultimately show ?thesis by simp
qed

text \<open>
  C4 (as amended).  When the source path does not exist and preparing the two
  directories raises nothing, the run ends normally: the \<^verbatim>\<open>except\<close> clause catches the
  \<^verbatim>\<open>FileNotFoundError\<close> of \<^verbatim>\<open>Image.open\<close> and prints one line, which contains the
  word \<^verbatim>\<open>Error\<close>; the disk is as directory preparation left it, so no file has been
  created, and the destination directories list what they listed before.
\<close>

theorem missing_source_reports_error:
  assumes "nodes (disk s) source_path = None"
    and "prepare_dirs (disk s) = (fs2, None)"
    and "main s = (s', r)"
  shows "r = Handled (FileNotFoundError source_path) \<and>
    stdout s' = stdout s @ [error_line (FileNotFoundError source_path)] \<and>
    sublist ''Error'' (error_line (FileNotFoundError source_path)) \<and>
    disk s' = fs2 \<and>
    (\<forall>p c. nodes (disk s') p = Some (File c) \<longrightarrow> nodes (disk s) p = Some (File c)) \<and>
    (\<forall>d\<in>{dest_dir, dist_dir}. listdir (disk s') d = listdir (disk s) d)"
proof -
  from assms(1) have "open_image (disk s) source_path = Inl (FileNotFoundError source_path)"
    by (simp add: open_image_def)
  from main_open_failed[OF assms(2) this] assms(3)
  have r: "r = Handled (FileNotFoundError source_path)"
    and s': "s' = print (s\<lparr>disk := fs2\<rparr>) (error_line (FileNotFoundError source_path))"
    by simp_all
  have o: "stdout s' = stdout s @ [error_line (FileNotFoundError source_path)]"
    and d: "disk s' = fs2" by (simp_all add: s' print_def)
  have f: "\<forall>p c. nodes (disk s') p = Some (File c) \<longrightarrow> nodes (disk s) p = Some (File c)"
    using prepare_dirs_file_kept[OF assms(2)] by (simp add: d)
  have l: "\<forall>d\<in>{dest_dir, dist_dir}. listdir (disk s') d = listdir (disk s) d"
    using prepare_dirs_listdir[OF assms(2)] by (auto simp: d listdir_def)
  show ?thesis
    by (intro conjI r o error_line_has_Error d f l)
qed

theorem missing_source_reports_error_witness:
  "nodes (disk nosource_state) source_path = None \<and>
   snd (prepare_dirs (disk nosource_state)) = None \<and>
   snd (main nosource_state) = Handled (FileNotFoundError source_path) \<and>
   stdout (fst (main nosource_state)) = [error_line (FileNotFoundError source_path)] \<and>
   listdir (disk (fst (main nosource_state))) dest_dir = {}"
proof -
  have h1: "nodes (disk nosource_state) source_path = None"
    by (simp add: nosource_state_def source_path_def)
  have p: "snd (prepare_dirs (disk nosource_state)) = None" by code_simp
  then have h2: "prepare_dirs (disk nosource_state) = (fst (prepare_dirs (disk nosource_state)), None)"
    by (simp add: prod_eq_iff)
  have h3: "main nosource_state = (fst (main nosource_state), snd (main nosource_state))"
    by simp
  have "\<And>name. \<not> exists (disk nosource_state) (join dest_dir name)"
    using length_dirs(1) by (auto simp: nosource_state_def exists_def join_def)
  then have e: "listdir (disk nosource_state) dest_dir = {}"
    by (simp add: listdir_def)
  have s0: "stdout nosource_state = []" by (simp add: nosource_state_def)
  from missing_source_reports_error[OF h1 h2 h3]
  have a: "snd (main nosource_state) = Handled (FileNotFoundError source_path)"
    and b: "stdout (fst (main nosource_state)) =
      stdout nosource_state @ [error_line (FileNotFoundError source_path)]"
    and c: "listdir (disk (fst (main nosource_state))) dest_dir = listdir (disk nosource_state) dest_dir"
    by blast+
  from b s0 have b': "stdout (fst (main nosource_state)) = [error_line (FileNotFoundError source_path)]"
    by simp
  from c e have c': "listdir (disk (fst (main nosource_state))) dest_dir = {}" by simp
  show ?thesis by (intro conjI h1 p a b' c')
qed

theorem missing_source_uncaught_counterexample:
  "nodes (disk bare_state) source_path = None \<and>
   snd (main bare_state) = Crashed (FileNotFoundError [''D:'']) \<and>
   stdout (fst (main bare_state)) = []"
proof -
  have "nodes (disk bare_state) source_path = None" by (simp add: bare_state_def)
  moreover have "snd (main bare_state) = Crashed (FileNotFoundError [''D:''])" by code_simp
  moreover have "stdout (fst (main bare_state)) = []" by code_simp
  ultimately show ?thesis by simp
qed

text \<open>
  C5.  When an iteration of the loop fails, the run ends there: the result of the whole
  loop is the state at the failure, whatever sizes were still to come, the
  \<^verbatim>\<open>except\<close> clause prints its line and the process ends normally.  The files of the
  sizes completed before are on disk with their copies; the paths of the later sizes
  hold what they held before the loop; nothing reports which files were left.
\<close>

theorem failed_iteration_aborts_loop:
  assumes "prepare_dirs (disk s) = (fs2, None)"
    and "open_image fs2 source_path = Inr img"
    and "sizes = pre @ n # post"
    and "resize_loop img pre (s\<lparr>disk := fs2\<rparr>) = (s1, None)"
    and "resize_loop img [n] s1 = (s2, Some e)"
  shows "resize_loop img sizes (s\<lparr>disk := fs2\<rparr>) = (s2, Some e) \<and>
    main s = (print s2 (error_line e), Handled e) \<and>
    disk (print s2 (error_line e)) = disk s2 \<and>
    (\<forall>m\<in>set pre.
       nodes (disk s2) (join dest_dir (icon_name m)) = Some (File (Encoded PNG (resized img m))) \<and>
       nodes (disk s2) (join dist_dir (icon_name m)) = Some (File (Encoded PNG (resized img m)))) \<and>
    (\<forall>m\<in>set post.
       nodes (disk s2) (join dest_dir (icon_name m)) = nodes fs2 (join dest_dir (icon_name m)) \<and>
       nodes (disk s2) (join dist_dir (icon_name m)) = nodes fs2 (join dist_dir (icon_name m))) \<and>
    (stdout s2 = stdout s @ map saved_line (targets pre) \<or>
     stdout s2 = stdout s @ map saved_line (targets pre) @ [saved_line (join dest_dir (icon_name n))])"
proof -
  have loop: "resize_loop img sizes (s\<lparr>disk := fs2\<rparr>) = (s2, Some e)"
    using assms(4,5) resize_loop_append[of img "pre @ [n]" post "s\<lparr>disk := fs2\<rparr>"]
      resize_loop_append[of img pre "[n]" "s\<lparr>disk := fs2\<rparr>"]
    by (simp add: assms(3))
  then have "try_block (s\<lparr>disk := fs2\<rparr>) = (s2, Some e)"
    using assms(2) by (simp add: try_block_def)
  with assms(1) have m: "main s = (print s2 (error_line e), Handled e)"
    by (simp add: main_def)
  have p: "disk (print s2 (error_line e)) = disk s2" by (simp add: print_def)
  from resize_loop_done[OF assms(4)]
  have d1: "disk s1 = written fs2 (planned img pre)"
    and o1: "stdout s1 = stdout s @ map saved_line (targets pre)" by simp_all
  have d2: "disk s2 = written fs2 (planned img pre) \<or>
            disk s2 = emptied (written fs2 (planned img pre)) (join dest_dir (icon_name n)) \<or>
            disk s2 = written fs2 (planned img pre @ [(join dest_dir (icon_name n), resized img n)])"
    and o2: "stdout s2 = stdout s @ map saved_line (targets pre) \<or>
     stdout s2 = stdout s @ map saved_line (targets pre) @ [saved_line (join dest_dir (icon_name n))]"
  proof -
    from resize_loop_one_failed[OF assms(5)]
    show "disk s2 = written fs2 (planned img pre) \<or>
            disk s2 = emptied (written fs2 (planned img pre)) (join dest_dir (icon_name n)) \<or>
            disk s2 = written fs2 (planned img pre @ [(join dest_dir (icon_name n), resized img n)])"
      unfolding d1 written_append by blast
    from resize_loop_one_failed[OF assms(5)]
    show "stdout s2 = stdout s @ map saved_line (targets pre) \<or>
     stdout s2 = stdout s @ map saved_line (targets pre) @ [saved_line (join dest_dir (icon_name n))]"
      unfolding o1 by auto
  qed
  have keep: "\<forall>m\<in>set pre.
       nodes (disk s2) (join dest_dir (icon_name m)) = Some (File (Encoded PNG (resized img m))) \<and>
       nodes (disk s2) (join dist_dir (icon_name m)) = Some (File (Encoded PNG (resized img m)))"
    using sizes_split[OF assms(3)] d2
    by (auto simp: planned_def written_def write_file_def emptied_def join_eq_iff dirs_differ
          icon_name_16 icon_name_48 icon_name_128)
  have later: "\<forall>m\<in>set post.
       nodes (disk s2) (join dest_dir (icon_name m)) = nodes fs2 (join dest_dir (icon_name m)) \<and>
       nodes (disk s2) (join dist_dir (icon_name m)) = nodes fs2 (join dist_dir (icon_name m))"
    using sizes_split[OF assms(3)] d2
    by (auto simp: planned_def written_def write_file_def emptied_def join_eq_iff dirs_differ
          icon_name_16 icon_name_48 icon_name_128)
  from loop m p keep later o2 show ?thesis by blast
qed

theorem failed_iteration_aborts_loop_witness:
  "snd (main locked48_state) = Handled (PermissionError (join dist_dir ''icon48.png'')) \<and>
   nodes (disk (fst (main locked48_state))) (join dest_dir (icon_name 16))
     = Some (File (Encoded PNG (resized ready_image 16))) \<and>
   nodes (disk (fst (main locked48_state))) (join dist_dir (icon_name 128)) = None"
proof -
  let ?s = locked48_state
  let ?e = "PermissionError (join dist_dir ''icon48.png'')"
  let ?s1 = "fst (resize_loop ready_image [16] ?s)"
  let ?s2 = "fst (resize_loop ready_image [48] ?s1)"
  have ex: "exists (disk ?s) dest_dir" "exists (disk ?s) dist_dir" by code_simp+
  have h1: "prepare_dirs (disk ?s) = (disk ?s, None)"
    using ex by (rule prepare_dirs_noop)
  have h2: "open_image (disk ?s) source_path = Inr ready_image" by code_simp
  have h3: "sizes = [16] @ 48 # [128]" by (simp add: sizes_def)
  have "snd (resize_loop ready_image [16] ?s) = None" by code_simp
  then have h4: "resize_loop ready_image [16] (?s\<lparr>disk := disk ?s\<rparr>) = (?s1, None)"
    by (simp add: prod_eq_iff)
  have "snd (resize_loop ready_image [48] ?s1) = Some ?e" by code_simp
  then have h5: "resize_loop ready_image [48] ?s1 = (?s2, Some ?e)"
    by (simp add: prod_eq_iff)
  have n: "nodes (disk ?s) (join dist_dir (icon_name 128)) = None" by code_simp
  from failed_iteration_aborts_loop[OF h1 h2 h3 h4 h5] n show ?thesis
    by simp
qed

text \<open>
  C6 (as amended).  When the directory-preparation step returns without raising, both
  destination paths exist; one that was absent is now a directory, created with its
  missing parents (in a well-formed filesystem every directory on the way to it exists
  afterwards); nothing that existed is changed, and the only new entries are
  directories on the way to the two paths.  A path that exists is passed over without
  error, so the step changes nothing when both exist.  The guard is
  \<^verbatim>\<open>os.path.exists\<close>: a destination path that is a regular file is passed over too, and
  is no directory afterwards.  In a well-formed filesystem with the drive present, no
  file in the way and no creation denied, the step does not raise.
\<close>

theorem prepare_dirs_contract:
  "(\<forall>fs'. prepare_dirs fs = (fs', None) \<longrightarrow>
      exists fs' dest_dir \<and> exists fs' dist_dir \<and>
      (\<forall>d\<in>{dest_dir, dist_dir}. \<not> exists fs d \<or> isdir fs d \<longrightarrow> isdir fs' d) \<and>
      (wf_fs fs \<longrightarrow> wf_fs fs' \<and>
         (\<forall>d\<in>{dest_dir, dist_dir}. isdir fs' d \<longrightarrow> (\<forall>q. prefix q d \<and> q \<noteq> [] \<longrightarrow> isdir fs' q))) \<and>
      (\<forall>q. exists fs q \<longrightarrow> nodes fs' q = nodes fs q) \<and>
      (\<forall>q. nodes fs' q \<noteq> nodes fs q \<longrightarrow>
           nodes fs' q = Some Dir \<and> (prefix q dest_dir \<or> prefix q dist_dir))) \<and>
   (\<forall>d. exists fs d \<longrightarrow> prepare_dir fs d = (fs, None)) \<and>
   (exists fs dest_dir \<and> exists fs dist_dir \<longrightarrow> prepare_dirs fs = (fs, None)) \<and>
   (wf_fs fs \<and> isdir fs [''D:''] \<and>
    (\<forall>q. (prefix q dest_dir \<or> prefix q dist_dir) \<and> q \<noteq> [] \<longrightarrow>
         \<not> denied fs q \<and> (exists fs q \<longrightarrow> isdir fs q)) \<longrightarrow>
    snd (prepare_dirs fs) = None)"
proof (intro conjI allI impI)
  fix fs' assume p: "prepare_dirs fs = (fs', None)"
  show "exists fs' dest_dir" "exists fs' dist_dir"
    using prepare_dirs_exist[OF p] by simp_all
  show "\<forall>d\<in>{dest_dir, dist_dir}. \<not> exists fs d \<or> isdir fs d \<longrightarrow> isdir fs' d"
    using prepare_dirs_isdir[OF p] by auto
  show "nodes fs' q = nodes fs q" if "exists fs q" for q
    using prepare_dirs_nodes(3)[OF p, of q] that by (auto simp: exists_def)
  show "nodes fs' q = Some Dir" if "nodes fs' q \<noteq> nodes fs q" for q
    using prepare_dirs_nodes(3)[OF p, of q] that by blast
  show "prefix q dest_dir \<or> prefix q dist_dir" if "nodes fs' q \<noteq> nodes fs q" for q
    using prepare_dirs_nodes(3)[OF p, of q] that by blast
  show "wf_fs fs'" if "wf_fs fs"
    using that p by (rule wf_fs_prepare_dirs)
  show "\<forall>d\<in>{dest_dir, dist_dir}. isdir fs' d \<longrightarrow> (\<forall>q. prefix q d \<and> q \<noteq> [] \<longrightarrow> isdir fs' q)"
    if "wf_fs fs"
  proof -
    from that p have "wf_fs fs'" by (rule wf_fs_prepare_dirs)
    then show ?thesis by (blast intro: wf_fs_prefix_exists_isdir)
  qed
next
  fix d assume "exists fs d"
  then show "prepare_dir fs d = (fs, None)" by (rule prepare_dir_noop)
next
  assume "exists fs dest_dir \<and> exists fs dist_dir"
  then show "prepare_dirs fs = (fs, None)" by (simp add: prepare_dirs_noop)
next
  assume "wf_fs fs \<and> isdir fs [''D:''] \<and>
    (\<forall>q. (prefix q dest_dir \<or> prefix q dist_dir) \<and> q \<noteq> [] \<longrightarrow>
         \<not> denied fs q \<and> (exists fs q \<longrightarrow> isdir fs q))"
  then show "snd (prepare_dirs fs) = None"
    by (intro prepare_dirs_succeeds) blast+
qed

theorem prepare_dirs_contract_witness:
  "wf_fs (disk nosource_state) \<and> isdir (disk nosource_state) [''D:''] \<and>
   \<not> exists (disk nosource_state) dest_dir \<and> \<not> exists (disk nosource_state) dist_dir \<and>
   snd (prepare_dirs (disk nosource_state)) = None \<and>
   isdir (fst (prepare_dirs (disk nosource_state))) dest_dir \<and>
   isdir (fst (prepare_dirs (disk nosource_state))) dist_dir \<and>
   isdir (fst (prepare_dirs (disk nosource_state))) (butlast dest_dir) \<and>
   exists ready_fs dest_dir \<and> exists ready_fs dist_dir \<and>
   prepare_dirs ready_fs = (ready_fs, None)"
proof -
  let ?fs = "disk nosource_state"
  let ?fs' = "fst (prepare_dirs ?fs)"
  have n: "\<And>q. exists ?fs q \<longleftrightarrow> q = [''D:'']" "\<And>q. isdir ?fs q \<longleftrightarrow> q = [''D:'']"
    "\<And>q. \<not> denied ?fs q"
    by (simp_all add: nosource_state_def exists_def isdir_def)
  have w: "wf_fs ?fs" by (auto simp: wf_fs_def n)
  have d: "isdir ?fs [''D:'']" by (simp add: n)
  have ne: "\<not> exists ?fs dest_dir" "\<not> exists ?fs dist_dir"
    by (simp_all add: n dest_dir_def dist_dir_def)
  have c: "\<forall>q. (prefix q dest_dir \<or> prefix q dist_dir) \<and> q \<noteq> [] \<longrightarrow>
         \<not> denied ?fs q \<and> (exists ?fs q \<longrightarrow> isdir ?fs q)"
    by (simp add: n)
  from prepare_dirs_contract[of ?fs] w d c
  have s: "snd (prepare_dirs ?fs) = None" by blast
  then have h: "prepare_dirs ?fs = (?fs', None)" by (simp add: prod_eq_iff)
  from prepare_dirs_contract[of ?fs] h ne
  have i: "isdir ?fs' dest_dir" "isdir ?fs' dist_dir" by blast+
  from prepare_dirs_contract[of ?fs] h w
  have "\<forall>d\<in>{dest_dir, dist_dir}. isdir ?fs' d \<longrightarrow> (\<forall>q. prefix q d \<and> q \<noteq> [] \<longrightarrow> isdir ?fs' q)"
    by blast
  moreover have "prefix (butlast dest_dir) dest_dir" "butlast dest_dir \<noteq> []"
    by (simp_all add: prefixeq_butlast dest_dir_def)
  ultimately have b: "isdir ?fs' (butlast dest_dir)" using i(1) by blast
  have e: "exists ready_fs dest_dir" "exists ready_fs dist_dir" by code_simp+
  with prepare_dirs_contract[of ready_fs]
  have r: "prepare_dirs ready_fs = (ready_fs, None)" by blast
  show ?thesis by (intro conjI w d ne s i b e r)
qed

theorem regular_file_at_dest_counterexample:
  "nodes occupied_fs dest_dir = Some (File (Garbage [1, 2])) \<and>
   snd (prepare_dirs occupied_fs) = None \<and>
   \<not> isdir (fst (prepare_dirs occupied_fs)) dest_dir"
proof -
  have "nodes occupied_fs dest_dir = Some (File (Garbage [1, 2]))"
    by (simp add: occupied_fs_def)
  moreover have "snd (prepare_dirs occupied_fs) = None" by code_simp
  moreover have "\<not> isdir (fst (prepare_dirs occupied_fs)) dest_dir" by code_simp
  ultimately show ?thesis by simp
qed

text \<open>
  C7 (as amended).  A second run after a successful one succeeds as well, writes the
  same six files with the same content and leaves the disk exactly as the first run left
  it, adding only its own six \<^verbatim>\<open>Saved\<close> lines to standard output.  No run deletes
  anything: after the second run a destination directory holds what it held before the
  first run together with the three icons, so an entry that was there before, stale or
  not, is still there, and the directory holds the three icons alone only when it held
  nothing else before.
\<close>

theorem second_run_idempotent:
  assumes "main s = (s1, Success)"
  shows "main s1 = (s1\<lparr>stdout := stdout s1 @ map saved_line (targets sizes)\<rparr>, Success) \<and>
    disk (fst (main s1)) = disk s1 \<and>
    (\<forall>d\<in>{dest_dir, dist_dir}.
       listdir (disk (fst (main s1))) d = listdir (disk s1) d \<and>
       listdir (disk (fst (main s1))) d = listdir (disk s) d \<union> icon_name ` set sizes \<and>
       (listdir (disk s) d \<subseteq> icon_name ` set sizes \<longrightarrow>
        listdir (disk (fst (main s1))) d = icon_name ` set sizes)) \<and>
    (\<forall>p c. nodes (disk (fst (main s1))) p = Some (File c) \<longrightarrow>
       p \<in> set (targets sizes) \<or> nodes (disk s) p = Some (File c)) \<and>
    (\<forall>p c. nodes (disk s) p = Some (File c) \<longrightarrow>
       p \<in> set (targets sizes) \<or> nodes (disk (fst (main s1))) p = Some (File c)) \<and>
    (\<exists>img. open_image (disk s) source_path = Inr img \<and> open_image (disk s1) source_path = Inr img \<and>
       (\<forall>n\<in>set sizes. \<forall>d\<in>{dest_dir, dist_dir}.
          nodes (disk s1) (join d (icon_name n)) = Some (File (Encoded PNG (resized img n))) \<and>
          nodes (disk (fst (main s1))) (join d (icon_name n)) = Some (File (Encoded PNG (resized img n)))))"
proof -
  from assms obtain fs2 img where p: "prepare_dirs (disk s) = (fs2, None)"
    and o: "open_image (disk s) source_path = Inr img" and i: "intact img"
    and l: "resize_loop img sizes (s\<lparr>disk := fs2\<rparr>) = (s1, None)"
    and d: "disk s1 = written fs2 (planned img sizes)"
    by (rule main_Success_disk)
  from resize_loop_success_facts[OF l]
  have nd: "\<forall>t\<in>set (targets sizes). \<not> denied fs2 t"
    and rs: "\<forall>n\<in>set sizes. resize img (n, n) LANCZOS = Inr (resized img n)"
    and h: "can_hold PNG (mode img)"
    and dirs: "isdir fs2 dest_dir" "isdir fs2 dist_dir"
    by (simp_all add: hd_sizes)
  have dirs1: "isdir (disk s1) dest_dir" "isdir (disk s1) dist_dir"
    using dirs dirs_not_targets[of sizes] by (simp_all add: d isdir_written fst_set_planned)
  then have ex1: "exists (disk s1) dest_dir" "exists (disk s1) dist_dir"
    by (simp_all add: isdir_def exists_def)
  then have p1: "prepare_dirs (disk s1) = (disk s1, None)" by (rule prepare_dirs_noop)
  have "nodes (disk s1) source_path = nodes fs2 source_path"
    using source_not_target[of sizes] by (simp add: d nodes_written_other fst_set_planned)
  moreover have "unreadable (disk s1) source_path = unreadable fs2 source_path"
    by (simp add: d)
  ultimately have "open_image (disk s1) source_path = open_image fs2 source_path"
    by (rule open_image_cong)
  with o prepare_dirs_source[OF p] have o1: "open_image (disk s1) source_path = Inr img"
    by simp
  have files: "\<forall>n\<in>set sizes.
       nodes (disk s1) (join dest_dir (icon_name n)) = Some (File (Encoded PNG (resized img n))) \<and>
       nodes (disk s1) (join dist_dir (icon_name n)) = Some (File (Encoded PNG (resized img n))) \<and>
       \<not> denied (disk s1) (join dest_dir (icon_name n)) \<and>
       \<not> denied (disk s1) (join dist_dir (icon_name n))"
    using nd by (auto simp: d nodes_written_planned set_targets)
  from resize_loop_rerun[OF h dirs1 rs files]
  have l1: "resize_loop img sizes s1 =
      (s1\<lparr>stdout := stdout s1 @ map saved_line (targets sizes)\<rparr>, None)" .
  with o1 have "try_block (s1\<lparr>disk := disk s1\<rparr>) =
      (s1\<lparr>stdout := stdout s1 @ map saved_line (targets sizes)\<rparr>, None)"
    by (simp add: try_block_def)
  with p1 have m: "main s1 = (s1\<lparr>stdout := stdout s1 @ map saved_line (targets sizes)\<rparr>, Success)"
    by (simp add: main_def)
  then have e: "disk (fst (main s1)) = disk s1" by simp
  from icons_listing[OF assms]
  have ls: "\<forall>d\<in>{dest_dir, dist_dir}. listdir (disk s1) d = listdir (disk s) d \<union> icon_name ` set sizes"
    by simp
  have ld: "\<forall>d\<in>{dest_dir, dist_dir}.
       listdir (disk (fst (main s1))) d = listdir (disk s1) d \<and>
       listdir (disk (fst (main s1))) d = listdir (disk s) d \<union> icon_name ` set sizes \<and>
       (listdir (disk s) d \<subseteq> icon_name ` set sizes \<longrightarrow>
        listdir (disk (fst (main s1))) d = icon_name ` set sizes)"
    using ls unfolding e by auto
  have nf: "\<forall>p c. nodes (disk (fst (main s1))) p = Some (File c) \<longrightarrow>
       p \<in> set (targets sizes) \<or> nodes (disk s) p = Some (File c)"
    unfolding e using files_after_success[OF assms] by blast
  have kf: "\<forall>p c. nodes (disk s) p = Some (File c) \<longrightarrow>
       p \<in> set (targets sizes) \<or> nodes (disk (fst (main s1))) p = Some (File c)"
  proof (intro allI impI)
    fix q c assume n: "nodes (disk s) q = Some (File c)"
    show "q \<in> set (targets sizes) \<or> nodes (disk (fst (main s1))) q = Some (File c)"
    proof (cases "q \<in> set (targets sizes)")
      case False
      then have "q \<notin> fst ` set (planned img sizes)" by (simp add: fst_set_planned)
      from nodes_written_other[OF this, of fs2] prepare_dirs_file_kept[OF p, of q c] n
      show ?thesis by (simp add: e d)
    qed simp
  qed
  have f2: "\<forall>n\<in>set sizes. \<forall>d\<in>{dest_dir, dist_dir}.
          nodes (disk s1) (join d (icon_name n)) = Some (File (Encoded PNG (resized img n))) \<and>
          nodes (disk (fst (main s1))) (join d (icon_name n)) = Some (File (Encoded PNG (resized img n)))"
    using files by (simp add: e)
  have "\<exists>img. open_image (disk s) source_path = Inr img \<and> open_image (disk s1) source_path = Inr img \<and>
       (\<forall>n\<in>set sizes. \<forall>d\<in>{dest_dir, dist_dir}.
          nodes (disk s1) (join d (icon_name n)) = Some (File (Encoded PNG (resized img n))) \<and>
          nodes (disk (fst (main s1))) (join d (icon_name n)) = Some (File (Encoded PNG (resized img n))))"
    by (intro exI[of _ img] conjI o o1 f2)
  with m e ld nf kf show ?thesis by (intro conjI)
qed

theorem second_run_idempotent_witness:
  "snd (main ready_state) = Success \<and>
   snd (main (fst (main ready_state))) = Success \<and>
   disk (fst (main (fst (main ready_state)))) = disk (fst (main ready_state)) \<and>
   length (stdout (fst (main (fst (main ready_state))))) = 12 \<and>
   listdir (disk (fst (main (fst (main ready_state))))) dest_dir =
     {''icon16.png'', ''icon48.png'', ''icon128.png''}"
proof -
  let ?s1 = "fst (main ready_state)"
  have r: "snd (main ready_state) = Success" by code_simp
  then have h: "main ready_state = (?s1, Success)" by (simp add: prod_eq_iff)
  note t = second_run_idempotent[OF h]
  from t have m: "main ?s1 = (?s1\<lparr>stdout := stdout ?s1 @ map saved_line (targets sizes)\<rparr>, Success)"
    by (rule conjunct1)
  from t have e: "disk (fst (main ?s1)) = disk ?s1" by (elim conjE)
  from m have r2: "snd (main ?s1) = Success" by simp
  have "length (stdout ?s1) = 6" by code_simp
  with m have n: "length (stdout (fst (main ?s1))) = 12"
    by (simp add: length_targets sizes_def)
  have "\<And>name. \<not> exists (disk ready_state) (join dest_dir name)"
    by (simp add: ready_state_def ready_fs_def exists_def join_not_prefix_dirs
          source_ne_join[symmetric])
  then have em: "listdir (disk ready_state) dest_dir = {}"
    by (simp add: listdir_def)
  from t have "\<forall>d\<in>{dest_dir, dist_dir}.
       listdir (disk (fst (main ?s1))) d = listdir (disk ?s1) d \<and>
       listdir (disk (fst (main ?s1))) d = listdir (disk ready_state) d \<union> icon_name ` set sizes \<and>
       (listdir (disk ready_state) d \<subseteq> icon_name ` set sizes \<longrightarrow>
        listdir (disk (fst (main ?s1))) d = icon_name ` set sizes)"
    by (elim conjE)
  then have "listdir (disk (fst (main ?s1))) dest_dir = listdir (disk ?s1) dest_dir \<and>
       listdir (disk (fst (main ?s1))) dest_dir = listdir (disk ready_state) dest_dir \<union> icon_name ` set sizes \<and>
       (listdir (disk ready_state) dest_dir \<subseteq> icon_name ` set sizes \<longrightarrow>
        listdir (disk (fst (main ?s1))) dest_dir = icon_name ` set sizes)"
    by (rule bspec) (rule insertI1)
  then have "listdir (disk (fst (main ?s1))) dest_dir =
      listdir (disk ready_state) dest_dir \<union> icon_name ` set sizes" by (elim conjE)
  with em have ls: "listdir (disk (fst (main ?s1))) dest_dir =
     {''icon16.png'', ''icon48.png'', ''icon128.png''}"
    by (simp add: sizes_def icon_name_16 icon_name_48 icon_name_128)
  show ?thesis by (intro conjI r r2 e n ls)
qed

theorem stale_file_survives_second_run_counterexample:
  "snd (main stale_state) = Success \<and>
   snd (main (fst (main stale_state))) = Success \<and>
   nodes (disk stale_state) (join dist_dir ''logo.png'') = Some (File (Garbage [0])) \<and>
   nodes (disk (fst (main (fst (main stale_state))))) (join dist_dir ''logo.png'')
     = Some (File (Garbage [0])) \<and>
   ''logo.png'' \<in> listdir (disk (fst (main (fst (main stale_state))))) dist_dir"
proof -
  have a: "snd (main stale_state) = Success" by code_simp
  have b: "snd (main (fst (main stale_state))) = Success" by code_simp
  have c: "nodes (disk stale_state) (join dist_dir ''logo.png'') = Some (File (Garbage [0]))"
    by (simp add: stale_state_def)
  have d: "nodes (disk (fst (main (fst (main stale_state))))) (join dist_dir ''logo.png'')
     = Some (File (Garbage [0]))" by code_simp
  then have e: "''logo.png'' \<in> listdir (disk (fst (main (fst (main stale_state))))) dist_dir"
    by (simp add: listdir_def exists_def)
  show ?thesis by (intro conjI a b c d e)
qed

text \<open>
  C8 (as amended).  What the run adds to standard output is one line \<^verbatim>\<open>Saved <path>\<close>
  for each file saved, in the order of the saves (six lines after a successful run),
  followed by the one line \<^verbatim>\<open>Error processing image: <message>\<close> when an exception was
  raised inside the \<^verbatim>\<open>try\<close> block.  An exception raised while a destination directory
  is created is outside the \<^verbatim>\<open>try\<close> block: the run then adds nothing to standard
  output.
\<close>

theorem stdout_lines:
  assumes "main s = (s', r)"
  shows "\<exists>k\<le>6.
    stdout s' = stdout s @ map saved_line (take k (targets sizes)) @
       (case r of Handled e \<Rightarrow> [error_line e] | _ \<Rightarrow> []) \<and>
    (\<forall>p\<in>set (take k (targets sizes)). \<exists>img. nodes (disk s') p = Some (File (Encoded PNG img))) \<and>
    (r = Success \<longleftrightarrow> k = 6) \<and>
    ((\<exists>e. r = Crashed e) \<longrightarrow> k = 0 \<and> stdout s' = stdout s) \<and>
    (\<forall>p. saved_line p = ''Saved '' @ render p) \<and>
    (\<forall>e. error_line e = ''Error processing image: '' @ str_error e)"
proof -
  have l: "\<forall>p. saved_line p = ''Saved '' @ render p"
    "\<forall>e. error_line e = ''Error processing image: '' @ str_error e"
    by (simp_all add: saved_line_def error_line_def)
  from assms show ?thesis
  proof (cases rule: main_trace)
    case (writes fs2 rp k img)
    note d = writes(3) and o = writes(4)
    have f: "\<forall>p\<in>set (take k (targets sizes)). \<exists>img. nodes (disk s') p = Some (File (Encoded PNG img))"
    proof
      fix q assume "q \<in> set (take k (targets sizes))"
      then have "q \<in> fst ` set (take k (planned img sizes))"
        by (simp add: fst_set_take_planned)
      from nodes_written_in[OF this, of fs2] d
      show "\<exists>img. nodes (disk s') q = Some (File (Encoded PNG img))" by auto
    qed
    have cr': "(\<exists>e. r = Crashed e) \<longrightarrow> k = 0 \<and> stdout s' = stdout s"
      using writes(6) o by auto
    show ?thesis
      by (intro exI[of _ k] conjI writes(2) o f writes(5) cr' l)
  next
    case (spoiled fs2 img e)
    have o: "stdout s' = stdout s @ map saved_line (take 0 (targets sizes)) @
       (case r of Handled e \<Rightarrow> [error_line e] | _ \<Rightarrow> [])"
      using spoiled(2,8) by simp
    have f: "\<forall>p\<in>set (take 0 (targets sizes)). \<exists>img. nodes (disk s') p = Some (File (Encoded PNG img))"
      by simp
    have su: "r = Success \<longleftrightarrow> (0::nat) = 6" using spoiled(2) by simp
    have cr': "(\<exists>e. r = Crashed e) \<longrightarrow> (0::nat) = 0 \<and> stdout s' = stdout s"
      using spoiled(2) by simp
    have k: "(0::nat) \<le> 6" by simp
    show ?thesis
      by (intro exI[of _ 0] conjI k o f su cr' l)
  qed
qed

theorem stdout_lines_witness:
  "snd (main locked48_state) = Handled (PermissionError (join dist_dir ''icon48.png'')) \<and>
   stdout (fst (main locked48_state)) =
     [saved_line (join dest_dir ''icon16.png''), saved_line (join dist_dir ''icon16.png''),
      saved_line (join dest_dir ''icon48.png''),
      error_line (PermissionError (join dist_dir ''icon48.png''))]"
proof -
  let ?r = "Handled (PermissionError (join dist_dir ''icon48.png''))"
  have r: "snd (main locked48_state) = ?r" by code_simp
  then have h: "main locked48_state = (fst (main locked48_state), ?r)"
    by (simp add: prod_eq_iff)
  have s0: "stdout locked48_state = []" by (simp add: locked48_state_def)
  have n: "length (stdout (fst (main locked48_state))) = 4" by code_simp
  from stdout_lines[OF h] obtain k where k: "k \<le> 6"
    "stdout (fst (main locked48_state)) =
       stdout locked48_state @ map saved_line (take k (targets sizes)) @
       (case ?r of Handled e \<Rightarrow> [error_line e] | _ \<Rightarrow> [])"
    by blast
  from k(2) n have "min (length (targets sizes)) k = 3" by (simp add: s0)
  then have "k = 3" by (simp add: length_targets sizes_def)
  with k(2) r show ?thesis by (simp add: s0 targets_sizes)
qed

theorem stdout_error_line_counterexample:
  "snd (main blocked_state) = Crashed (FileNotFoundError dist_dir) \<and>
   stdout (fst (main blocked_state)) = []"
proof -
  have "snd (main blocked_state) = Crashed (FileNotFoundError dist_dir)" by code_simp
  moreover have "stdout (fst (main blocked_state)) = []" by code_simp
  ultimately show ?thesis by simp
qed

text \<open>
  C9 (as amended).  The directories are prepared before the image is opened, and each
  \<^verbatim>\<open>os.makedirs\<close> call is guarded by \<^verbatim>\<open>os.path.exists\<close>.  Whenever the preparation
  raises nothing, the run does not crash, both destination paths exist after the run
  (as directories when they were absent or directories before), and the directories on
  disk after the run are exactly those the preparation left, also when the run then
  fails on a missing or corrupt source: the \<^verbatim>\<open>except\<close> branch undoes nothing.
\<close>

theorem dirs_exist_after_run:
  assumes "prepare_dirs (disk s) = (fs2, None)"
    and "main s = (s', r)"
  shows "(\<forall>e. r \<noteq> Crashed e) \<and>
    exists (disk s') dest_dir \<and> exists (disk s') dist_dir \<and>
    (\<forall>d\<in>{dest_dir, dist_dir}. \<not> exists (disk s) d \<or> isdir (disk s) d \<longrightarrow> isdir (disk s') d) \<and>
    (\<forall>q. isdir (disk s') q \<longleftrightarrow> isdir fs2 q) \<and>
    (\<forall>q. exists fs2 q \<longrightarrow> exists (disk s') q)"
proof -
  have a: "\<forall>e. r \<noteq> Crashed e"
    using assms by (cases s rule: main_cases) auto
  from prepare_dirs_exist[OF assms(1)] main_exists_mono[OF assms]
  have b: "exists (disk s') dest_dir" "exists (disk s') dist_dir" by blast+
  have c: "\<forall>d\<in>{dest_dir, dist_dir}. \<not> exists (disk s) d \<or> isdir (disk s) d \<longrightarrow> isdir (disk s') d"
    using prepare_dirs_isdir[OF assms(1)] main_isdir[OF assms] by auto
  have d: "\<forall>q. isdir (disk s') q \<longleftrightarrow> isdir fs2 q"
    using main_isdir[OF assms] by simp
  have e: "\<forall>q. exists fs2 q \<longrightarrow> exists (disk s') q"
    using main_exists_mono[OF assms] by blast
  show ?thesis by (intro conjI a b c d e)
qed

theorem dirs_exist_after_run_witness:
  "snd (prepare_dirs (disk fresh_state)) = None \<and>
   \<not> exists (disk fresh_state) dest_dir \<and> \<not> exists (disk fresh_state) dist_dir \<and>
   snd (main fresh_state) = Handled (UnidentifiedImageError source_path) \<and>
   isdir (disk (fst (main fresh_state))) dest_dir \<and>
   isdir (disk (fst (main fresh_state))) dist_dir"
proof -
  have p: "snd (prepare_dirs (disk fresh_state)) = None" by code_simp
  then have h1: "prepare_dirs (disk fresh_state) = (fst (prepare_dirs (disk fresh_state)), None)"
    by (simp add: prod_eq_iff)
  have r: "snd (main fresh_state) = Handled (UnidentifiedImageError source_path)" by code_simp
  have h2: "main fresh_state = (fst (main fresh_state), snd (main fresh_state))" by simp
  have n: "\<not> exists (disk fresh_state) dest_dir" "\<not> exists (disk fresh_state) dist_dir"
    by code_simp+
  from dirs_exist_after_run[OF h1 h2] n
  have "isdir (disk (fst (main fresh_state))) dest_dir"
    "isdir (disk (fst (main fresh_state))) dist_dir" by blast+
  with p n r show ?thesis by (intro conjI)
qed

theorem dirs_missing_after_crash_counterexample:
  "snd (main readonly_state) = Crashed (PermissionError [''D:'', ''AI_project'', ''web-scraper'', ''src'']) \<and>
   \<not> exists (disk (fst (main readonly_state))) dest_dir \<and>
   \<not> exists (disk (fst (main readonly_state))) dist_dir"
proof -
  have "snd (main readonly_state) =
      Crashed (PermissionError [''D:'', ''AI_project'', ''web-scraper'', ''src''])" by code_simp
  moreover have "\<not> exists (disk (fst (main readonly_state))) dest_dir" by code_simp
  moreover have "\<not> exists (disk (fst (main readonly_state))) dist_dir" by code_simp
  ultimately show ?thesis by simp
qed




end
